theory Spec2Isabelle
  imports Main "HOL-Library.Sublist"
begin

section \<open>UniFlash core: the flash pipeline of \<^verbatim>\<open>UniFlash/core.py\<close>\<close>

text \<open>
  The pipeline of \<^verbatim>\<open>core.py\<close> is a sequence of calls into the operating system
  (PowerShell, diskpart, the file system, the network). Each such call is an oracle of the
  environment record below; everything the Python code itself decides (the order of the
  calls, which results it looks at, which exceptions it catches, what it returns) is
  written out. Every function takes the environment and the state and returns the new
  state with its outcome: a returned value or a raised exception.
\<close>

subsection \<open>Exceptions, outcomes\<close>

text \<open>
  The exception classes the code distinguishes. \<^verbatim>\<open>SystemExit\<close> and
  \<^verbatim>\<open>KeyboardInterrupt\<close> derive from \<^verbatim>\<open>BaseException\<close> only, so
  \<^verbatim>\<open>except Exception\<close> does not catch them; all others derive from
  \<^verbatim>\<open>Exception\<close>. The string is \<^verbatim>\<open>str(error)\<close>.
\<close>

datatype exn_class =
    SystemExit | KeyboardInterrupt
  | ContentTooShortError | HTTPError | URLError
  | CalledProcessError | FileNotFoundError | OSError | ConnectionResetError | RuntimeError

datatype exn = Exn exn_class string

fun exn_cls :: "exn \<Rightarrow> exn_class" where
  "exn_cls (Exn c s) = c"

fun str :: "exn \<Rightarrow> string" where
  "str (Exn c s) = s"

definition is_Exception :: "exn \<Rightarrow> bool" where
  "is_Exception e = (exn_cls e \<noteq> SystemExit \<and> exn_cls e \<noteq> KeyboardInterrupt)"

text \<open>The tuple of \<^verbatim>\<open>install_uefi_ntfs_support_partition\<close>'s except clause.\<close>

definition is_urllib_error :: "exn \<Rightarrow> bool" where
  "is_urllib_error e = (exn_cls e = ContentTooShortError \<or> exn_cls e = HTTPError \<or> exn_cls e = URLError)"

datatype 'a outcome = Return 'a | Raise exn

subsection \<open>Messages, commands, events\<close>

datatype color = Plain | Red | Yellow | Green

text \<open>
  The messages of \<^verbatim>\<open>print_with_color\<close>, one constructor per format string of the
  source (the text itself goes through gettext), with the formatted argument.
\<close>

datatype message =
    Err_source_not_found string
  | Err_not_drive_letter string
  | Err_not_entire_device string
  | Err_not_partition string
  | Warn_fat32_limit string
  | Msg_checking_and_formatting string
  | Msg_no_partitions_found
  | Msg_already_has_partition
  | Warn_not_admin
  | Err_mount_source
  | Err_mount_target
  | Msg_error_text string
  | Msg_flashing_completed
  | Msg_wiping string
  | Msg_creating_partition_table string
  | Msg_creating_partition
  | Msg_creating_uefi_ntfs
  | Warn_uefi_download
  | Msg_mounting_source
  | Msg_mounting_target

text \<open>
  The external commands of \<^verbatim>\<open>subprocess.run\<close>:
  \<^item> \<open>Mount_DiskImage src\<close>: PowerShell Mount-DiskImage -ImagePath src (with check=True);
  \<^item> \<open>Get_Partition dev\<close>: PowerShell -Command "Get-Partition -DiskNumber dev";
  \<^item> \<open>Diskpart_clean dev\<close>: diskpart /s "select disk dev, clean";
  \<^item> \<open>Diskpart_convert dev style\<close>: diskpart /s "select disk dev, convert style";
  \<^item> \<open>Diskpart_create_partition dev fs label\<close>: diskpart /s "select disk dev, create
    partition primary, select partition 1, active, format fs=fs label=label quick,
    assign letter=U".
\<close>

datatype command =
    Mount_DiskImage string
  | Get_Partition string
  | Diskpart_clean string
  | Diskpart_convert string string
  | Diskpart_create_partition string string string

text \<open>What \<^verbatim>\<open>subprocess.run\<close> gives: a completed process (return code, decoded stdout),
  or an exception (the executable cannot be started, the output cannot be decoded).\<close>

datatype proc_result = Completed int string | Failed_to_run exn

datatype event =
    Called string
  | Print message color
  | Run command
  | Kill_polled bool
  | Mkdtemp string
  | Makedirs string
  | Getsize string
  | Copy2 string string
  | Move string string
  | Urlretrieve string string
  | Rmtree string
  | Reporter_start string string
  | Reporter_file string
  | Reporter_stop

subsection \<open>Environment and state\<close>

text \<open>
  The environment: the module globals the functions read (\<^verbatim>\<open>gui\<close>) and the answers
  of the operating system. \<open>gui_kill t\<close> is the value of \<^verbatim>\<open>gui.kill\<close> when it is read
  after \<open>t\<close> events (another thread sets it); \<open>run t c\<close> is the result of running
  command \<open>c\<close> after \<open>t\<close> events.
\<close>

record env =
  gui :: bool
  gui_kill :: "nat \<Rightarrow> bool"
  isfile :: "string \<Rightarrow> bool"
  IsUserAnAdmin :: "bool option"
  mkdtemp :: "exn + string"
  stamp_source :: string
  stamp_target :: string
  os_path_join :: "string \<Rightarrow> string \<Rightarrow> string"
  makedirs_error :: "string \<Rightarrow> exn option"
  run :: "nat \<Rightarrow> command \<Rightarrow> proc_result"
  walk :: "string \<Rightarrow> (string \<times> string list \<times> string list) list"
  getsize :: "string \<Rightarrow> exn + nat"
  copy2_error :: "string \<Rightarrow> string \<Rightarrow> exn option"
  urlretrieve_error :: "exn option"
  move_error :: "string \<Rightarrow> string \<Rightarrow> exn option"
  rmtree_error :: "string \<Rightarrow> exn option"

text \<open>\<^verbatim>\<open>CopyFiles_handle\<close>: the progress thread object (module global).\<close>

record reporter =
  started :: bool
  stop :: bool
  current_file :: string

text \<open>
  The state: the events so far, the directories among those the pipeline names that exist
  now, and \<^verbatim>\<open>CopyFiles_handle\<close>.
\<close>

record state =
  trace :: "event list"
  dirs :: "string set"
  handle :: reporter

type_synonym 'a action = "state \<Rightarrow> state \<times> 'a outcome"

definition ret :: "'a \<Rightarrow> 'a action" where
  "ret v st = (st, Return v)"

definition raise :: "exn \<Rightarrow> 'a action" where
  "raise e st = (st, Raise e)"

definition and_then :: "'a action \<Rightarrow> ('a \<Rightarrow> 'b action) \<Rightarrow> 'b action" where
  "and_then m k st = (case m st of (st', Return v) \<Rightarrow> k v st' | (st', Raise e) \<Rightarrow> (st', Raise e))"

definition emit :: "event \<Rightarrow> unit action" where
  "emit ev st = (st\<lparr>trace := trace st @ [ev]\<rparr>, Return ())"

subsection \<open>Utility functions\<close>

text \<open>
  \<^verbatim>\<open>print_with_color\<close>: with a GUI attached the text becomes \<^verbatim>\<open>gui.state\<close>, and a red
  message becomes \<^verbatim>\<open>gui.error\<close> and ends in \<^verbatim>\<open>sys.exit()\<close>; without one the text is
  written to the debug window or to stdout.
\<close>

definition print_with_color :: "env \<Rightarrow> message \<Rightarrow> color \<Rightarrow> unit action" where
  "print_with_color E text c =
     and_then (emit (Print text c))
       (\<lambda>_. if gui E \<and> c = Red then raise (Exn SystemExit []) else ret ())"

definition sep :: char where
  "sep = CHR 0x5C"

definition is_A_to_Z :: "char \<Rightarrow> bool" where
  "is_A_to_Z c = (65 \<le> (of_char c :: nat) \<and> (of_char c :: nat) \<le> 90)"

text \<open>\<^verbatim>\<open>re.match(r"^[A-Z]:\\", s)\<close>: a capital letter, a colon, a backslash, then anything.\<close>

fun match_drive_backslash :: "string \<Rightarrow> bool" where
  "match_drive_backslash (a # b # c # rest) = (is_A_to_Z a \<and> b = CHR '':'' \<and> c = sep)"
| "match_drive_backslash _ = False"

text \<open>\<^verbatim>\<open>re.match(r"^[A-Z]:$", s)\<close>: a capital letter and a colon, then the end of the
  string or one newline right before the end.\<close>

fun match_drive_only :: "string \<Rightarrow> bool" where
  "match_drive_only [a, b] = (is_A_to_Z a \<and> b = CHR '':'')"
| "match_drive_only [a, b, c] = (is_A_to_Z a \<and> b = CHR '':'' \<and> c = CHR 0x0A)"
| "match_drive_only _ = False"

definition check_runtime_parameters :: "env \<Rightarrow> string \<Rightarrow> string \<Rightarrow> string \<Rightarrow> int action" where
  "check_runtime_parameters E install_mode source_media target_media =
     (if \<not> isfile E source_media then
        and_then (print_with_color E (Err_source_not_found source_media) Red) (\<lambda>_. ret 1)
      else if \<not> match_drive_backslash target_media then
        and_then (print_with_color E (Err_not_drive_letter target_media) Red) (\<lambda>_. ret 1)
      else if install_mode = ''device'' \<and> \<not> match_drive_only target_media then
        and_then (print_with_color E (Err_not_entire_device target_media) Red) (\<lambda>_. ret 1)
      else if install_mode = ''partition'' \<and> \<not> match_drive_backslash target_media then
        and_then (print_with_color E (Err_not_partition target_media) Red) (\<lambda>_. ret 1)
      else ret 0)"

subsection \<open>String helpers\<close>

text \<open>\<^verbatim>\<open>sub in s\<close> on strings.\<close>

fun contains :: "string \<Rightarrow> string \<Rightarrow> bool" where
  "contains sub [] = (sub = [])"
| "contains sub (c # cs) = (prefix sub (c # cs) \<or> contains sub cs)"

text \<open>
  \<^verbatim>\<open>len(s.strip()) == 0\<close>: every character is white space. A character of the model
  is a code point below 256; those for which \<^verbatim>\<open>str.isspace\<close> holds are tab to
  carriage return, the separators 0x1C to 0x1F, space, next line (0x85) and no-break
  space (0xA0).
\<close>

definition is_space :: "char \<Rightarrow> bool" where
  "is_space c =
     (let n = (of_char c :: nat)
      in (9 \<le> n \<and> n \<le> 13) \<or> (28 \<le> n \<and> n \<le> 32) \<or> n = 133 \<or> n = 160)"

definition strip_is_empty :: "string \<Rightarrow> bool" where
  "strip_is_empty s = list_all is_space s"

text \<open>
  \<^verbatim>\<open>s.replace(old, new)\<close>: every occurrence of \<open>old\<close>, found from the left and not
  overlapping, becomes \<open>new\<close>; an empty \<open>old\<close> matches before every character and at
  the end.
\<close>

function replace :: "string \<Rightarrow> string \<Rightarrow> string \<Rightarrow> string" where
  "replace old new s =
     (if old = [] then new @ concat (map (\<lambda>c. c # new) s)
      else if s = [] then []
      else if prefix old s then new @ replace old new (drop (length old) s)
      else hd s # replace old new (tl s))"
  by pat_completeness auto
termination
  by (relation "measure (\<lambda>(old, new, s). length s)") (auto simp: neq_Nil_conv)

declare replace.simps [simp del]

subsection \<open>Primitives of the operating system\<close>

definition run_command :: "env \<Rightarrow> command \<Rightarrow> (int \<times> string) action" where
  "run_command E c st =
     (let r = run E (length (trace st)) c in
      and_then (emit (Run c))
        (\<lambda>_. case r of Completed rc out \<Rightarrow> ret (rc, out) | Failed_to_run e \<Rightarrow> raise e) st)"

definition tempfile_mkdtemp :: "env \<Rightarrow> string action" where
  "tempfile_mkdtemp E st =
     (case mkdtemp E of
        Inl e \<Rightarrow> (st, Raise e)
      | Inr d \<Rightarrow> (st\<lparr>trace := trace st @ [Mkdtemp d], dirs := insert d (dirs st)\<rparr>, Return d))"

definition os_makedirs :: "env \<Rightarrow> string \<Rightarrow> unit action" where
  "os_makedirs E p st =
     (case makedirs_error E p of
        Some e \<Rightarrow> (st\<lparr>trace := trace st @ [Makedirs p]\<rparr>, Raise e)
      | None \<Rightarrow> (st\<lparr>trace := trace st @ [Makedirs p], dirs := insert p (dirs st)\<rparr>, Return ()))"

text \<open>\<^verbatim>\<open>shutil.rmtree\<close> raises when the directory does not exist.\<close>

definition shutil_rmtree :: "env \<Rightarrow> string \<Rightarrow> unit action" where
  "shutil_rmtree E p st =
     (if p \<notin> dirs st then (st\<lparr>trace := trace st @ [Rmtree p]\<rparr>, Raise (Exn FileNotFoundError p))
      else case rmtree_error E p of
          Some e \<Rightarrow> (st\<lparr>trace := trace st @ [Rmtree p]\<rparr>, Raise e)
        | None \<Rightarrow> (st\<lparr>trace := trace st @ [Rmtree p], dirs := dirs st - {p}\<rparr>, Return ()))"

definition shutil_copy2 :: "env \<Rightarrow> string \<Rightarrow> string \<Rightarrow> unit action" where
  "shutil_copy2 E src dst =
     and_then (emit (Copy2 src dst))
       (\<lambda>_. case copy2_error E src dst of Some e \<Rightarrow> raise e | None \<Rightarrow> ret ())"

definition shutil_move :: "env \<Rightarrow> string \<Rightarrow> string \<Rightarrow> unit action" where
  "shutil_move E src dst =
     and_then (emit (Move src dst))
       (\<lambda>_. case move_error E src dst of Some e \<Rightarrow> raise e | None \<Rightarrow> ret ())"

text \<open>The paths \<^verbatim>\<open>os.path.join(dirpath, file)\<close> of the two nested loops over
  \<^verbatim>\<open>os.walk(top)\<close>, in the order the loops visit them.\<close>

definition walk_paths :: "env \<Rightarrow> string \<Rightarrow> string list" where
  "walk_paths E root = concat (map (\<lambda>(dirpath, dirnames, filenames). map (os_path_join E dirpath) filenames) (walk E root))"

subsection \<open>The functions of core.py\<close>

definition DEFAULT_NEW_FS_LABEL :: string where
  "DEFAULT_NEW_FS_LABEL = ''USB''"

text \<open>The loop of \<^verbatim>\<open>check_fat32_filesize_limitation\<close> over the paths.\<close>

fun check_fat32_loop :: "env \<Rightarrow> string list \<Rightarrow> int action" where
  "check_fat32_loop E [] = ret 0"
| "check_fat32_loop E (path # rest) =
     and_then (emit (Getsize path))
       (\<lambda>_. case getsize E path of
          Inl e \<Rightarrow> raise e
        | Inr n \<Rightarrow>
            if n > 2 ^ 32 - 1 then
              and_then (print_with_color E (Warn_fat32_limit path) Yellow) (\<lambda>_. ret 1)
            else check_fat32_loop E rest)"

definition check_fat32_filesize_limitation :: "env \<Rightarrow> string \<Rightarrow> int action" where
  "check_fat32_filesize_limitation E source_fs_mountpoint =
     check_fat32_loop E (walk_paths E source_fs_mountpoint)"

definition check_kill_signal :: "env \<Rightarrow> unit action" where
  "check_kill_signal E st =
     (if gui E then
        (let k = gui_kill E (length (trace st)) in
         and_then (emit (Kill_polled k))
           (\<lambda>_. if k then raise (Exn SystemExit []) else ret ()) st)
      else ret () st)"

text \<open>\<^verbatim>\<open>is_admin\<close>: the answer of the shell, False when asking raised.\<close>

definition is_admin :: "env \<Rightarrow> bool" where
  "is_admin E = (case IsUserAnAdmin E of Some b \<Rightarrow> b | None \<Rightarrow> False)"

definition create_target_partition :: "env \<Rightarrow> string \<Rightarrow> string \<Rightarrow> string \<Rightarrow> unit action" where
  "create_target_partition E target_device filesystem_type filesystem_label =
     and_then (emit (Called ''create_target_partition'')) (\<lambda>_.
     and_then (print_with_color E Msg_creating_partition Green) (\<lambda>_.
     and_then (run_command E (Diskpart_create_partition target_device filesystem_type filesystem_label)) (\<lambda>_.
     ret ())))"

definition format_target_device :: "env \<Rightarrow> string \<Rightarrow> string \<Rightarrow> unit action" where
  "format_target_device E target_device filesystem_type =
     and_then (emit (Called ''format_target_device'')) (\<lambda>_.
     and_then (print_with_color E (Msg_checking_and_formatting target_device) Green) (\<lambda>_.
     and_then (run_command E (Get_Partition target_device)) (\<lambda>(rc, result).
       if contains ''No partitions'' result \<or> strip_is_empty result then
         and_then (print_with_color E Msg_no_partitions_found Green) (\<lambda>_.
         create_target_partition E target_device filesystem_type DEFAULT_NEW_FS_LABEL)
       else print_with_color E Msg_already_has_partition Green)))"

definition wipe_existing_partition_table_and_filesystem_signatures :: "env \<Rightarrow> string \<Rightarrow> unit action" where
  "wipe_existing_partition_table_and_filesystem_signatures E target_device =
     and_then (emit (Called ''wipe_existing_partition_table_and_filesystem_signatures'')) (\<lambda>_.
     and_then (print_with_color E (Msg_wiping target_device) Green) (\<lambda>_.
     and_then (run_command E (Diskpart_clean target_device)) (\<lambda>_.
     ret ())))"

definition create_target_partition_table :: "env \<Rightarrow> string \<Rightarrow> string \<Rightarrow> unit action" where
  "create_target_partition_table E target_device partition_table_type =
     and_then (emit (Called ''create_target_partition_table'')) (\<lambda>_.
     and_then (print_with_color E (Msg_creating_partition_table target_device) Green) (\<lambda>_.
       if partition_table_type = ''legacy'' \<or> partition_table_type = ''msdos'' then
         and_then (run_command E (Diskpart_convert target_device ''mbr'')) (\<lambda>_. ret ())
       else if partition_table_type = ''gpt'' then
         and_then (run_command E (Diskpart_convert target_device ''gpt'')) (\<lambda>_. ret ())
       else ret ()))"

definition create_uefi_ntfs_support_partition :: "env \<Rightarrow> string \<Rightarrow> unit action" where
  "create_uefi_ntfs_support_partition E target_device =
     and_then (emit (Called ''create_uefi_ntfs_support_partition'')) (\<lambda>_.
     print_with_color E Msg_creating_uefi_ntfs Green)"

definition uefi_ntfs_url :: string where
  "uefi_ntfs_url = ''https://github.com/pbatard/rufus/raw/master/res/uefi/uefi-ntfs.img''"

text \<open>Returns 1 after a download error of urllib, None (no return statement) otherwise.\<close>

definition install_uefi_ntfs_support_partition :: "env \<Rightarrow> string \<Rightarrow> string \<Rightarrow> int option action" where
  "install_uefi_ntfs_support_partition E uefi_ntfs_partition download_directory =
     and_then (emit (Called ''install_uefi_ntfs_support_partition'')) (\<lambda>_.
     and_then (check_kill_signal E) (\<lambda>_.
     and_then (emit (Urlretrieve uefi_ntfs_url ''uefi-ntfs.img'')) (\<lambda>_.
       case urlretrieve_error E of
         Some e \<Rightarrow>
           if is_urllib_error e then
             and_then (print_with_color E Warn_uefi_download Yellow) (\<lambda>_. ret (Some 1))
           else raise e
       | None \<Rightarrow>
           and_then (shutil_move E ''uefi-ntfs.img'' (download_directory @ ''/'' @ ''uefi-ntfs.img'')) (\<lambda>_.
           and_then (shutil_copy2 E (download_directory @ ''/uefi-ntfs.img'') uefi_ntfs_partition) (\<lambda>_.
           ret None)))))"

text \<open>
  \<^verbatim>\<open>subprocess.run(..., check=True)\<close> raises CalledProcessError on a return code
  other than 0.
\<close>

definition run_command_check :: "env \<Rightarrow> command \<Rightarrow> (int \<times> string) action" where
  "run_command_check E c =
     and_then (run_command E c)
       (\<lambda>(rc, out). if rc \<noteq> 0 then raise (Exn CalledProcessError []) else ret (rc, out))"

text \<open>\<^verbatim>\<open>try: m except subprocess.CalledProcessError: h\<close>.\<close>

definition except_CalledProcessError :: "'a action \<Rightarrow> 'a action \<Rightarrow> 'a action" where
  "except_CalledProcessError m h st =
     (case m st of
        (st', Return v) \<Rightarrow> (st', Return v)
      | (st', Raise e) \<Rightarrow> if exn_cls e = CalledProcessError then h st' else (st', Raise e))"

text \<open>The \<^verbatim>\<open>return 0\<close> after the try statement is reached exactly when the try body
  ends without an exception.\<close>

definition mount_source_filesystem :: "env \<Rightarrow> string \<Rightarrow> string \<Rightarrow> int action" where
  "mount_source_filesystem E source_media source_fs_mountpoint =
     and_then (emit (Called ''mount_source_filesystem'')) (\<lambda>_.
     and_then (print_with_color E Msg_mounting_source Green) (\<lambda>_.
     and_then (\<lambda>st. if source_fs_mountpoint \<notin> dirs st then os_makedirs E source_fs_mountpoint st else ret () st) (\<lambda>_.
     except_CalledProcessError
       (and_then (run_command_check E (Mount_DiskImage source_media)) (\<lambda>_. ret 0))
       (ret 1))))"

definition mount_target_filesystem :: "env \<Rightarrow> string \<Rightarrow> string \<Rightarrow> int action" where
  "mount_target_filesystem E target_device target_fs_mountpoint =
     and_then (emit (Called ''mount_target_filesystem'')) (\<lambda>_.
     and_then (print_with_color E Msg_mounting_target Green) (\<lambda>_.
     ret 0))"

text \<open>The loop of \<^verbatim>\<open>copy_filesystem_files\<close> over the paths.\<close>

fun copy_loop :: "env \<Rightarrow> string \<Rightarrow> string \<Rightarrow> string list \<Rightarrow> unit action" where
  "copy_loop E source_fs_mountpoint target_fs_mountpoint [] = ret ()"
| "copy_loop E source_fs_mountpoint target_fs_mountpoint (path # rest) =
     and_then (\<lambda>st. (st\<lparr>trace := trace st @ [Reporter_file path],
                        handle := (handle st)\<lparr>current_file := path\<rparr>\<rparr>, Return ())) (\<lambda>_.
     and_then (shutil_copy2 E path (target_fs_mountpoint @ replace source_fs_mountpoint [] path)) (\<lambda>_.
     copy_loop E source_fs_mountpoint target_fs_mountpoint rest))"

definition copy_filesystem_files :: "env \<Rightarrow> string \<Rightarrow> string \<Rightarrow> unit action" where
  "copy_filesystem_files E source_fs_mountpoint target_fs_mountpoint =
     and_then (emit (Called ''copy_filesystem_files'')) (\<lambda>_.
     and_then (check_kill_signal E) (\<lambda>_.
     and_then (\<lambda>st. (st\<lparr>trace := trace st @ [Reporter_start source_fs_mountpoint target_fs_mountpoint],
                        handle := \<lparr>started = True, stop = False, current_file = []\<rparr>\<rparr>, Return ())) (\<lambda>_.
     and_then (copy_loop E source_fs_mountpoint target_fs_mountpoint (walk_paths E source_fs_mountpoint)) (\<lambda>_.
     (\<lambda>st. (st\<lparr>trace := trace st @ [Reporter_stop], handle := (handle st)\<lparr>stop := True\<rparr>\<rparr>, Return ()))))))"

text \<open>
  \<^verbatim>\<open>Thread.is_alive()\<close>: started and not yet finished. The thread finishes once it
  sees its stop flag; while it still lingers after that, \<^verbatim>\<open>cleanup\<close> sets a flag that
  is set already, so the state after \<^verbatim>\<open>cleanup\<close> is the same.
\<close>

definition is_alive :: "reporter \<Rightarrow> bool" where
  "is_alive h = (started h \<and> \<not> stop h)"

definition cleanup :: "env \<Rightarrow> string \<Rightarrow> string \<Rightarrow> string \<Rightarrow> string \<Rightarrow> unit action" where
  "cleanup E source_fs_mountpoint target_fs_mountpoint temp_directory target_device =
     and_then (emit (Called ''cleanup'')) (\<lambda>_.
     and_then (\<lambda>st. if is_alive (handle st) then (st\<lparr>handle := (handle st)\<lparr>stop := True\<rparr>\<rparr>, Return ()) else ret () st) (\<lambda>_.
     shutil_rmtree E temp_directory))"

subsection \<open>flash\_device\<close>

text \<open>\<^verbatim>\<open>try: m except Exception as error: h(error)\<close>.\<close>

definition except_Exception :: "'a action \<Rightarrow> (exn \<Rightarrow> 'a action) \<Rightarrow> 'a action" where
  "except_Exception m h st =
     (case m st of
        (st', Return v) \<Rightarrow> (st', Return v)
      | (st', Raise e) \<Rightarrow> if is_Exception e then h e st' else (st', Raise e))"

text \<open>\<^verbatim>\<open>try: m finally: f\<close>: \<open>f\<close> runs on every outcome of \<open>m\<close>; an exception of
  \<open>f\<close> replaces the outcome of \<open>m\<close>.\<close>

definition try_finally :: "'a action \<Rightarrow> unit action \<Rightarrow> 'a action" where
  "try_finally m f st =
     (case m st of (st', out) \<Rightarrow>
        (case f st' of (st'', Return u) \<Rightarrow> (st'', out) | (st'', Raise e) \<Rightarrow> (st'', Raise e)))"

text \<open>The body of the try statement. The value is that of a \<^verbatim>\<open>return\<close> statement
  (\<open>Some 1\<close>), or \<open>None\<close> when the body runs to its end.\<close>

definition flash_device_body ::
  "env \<Rightarrow> string \<Rightarrow> string \<Rightarrow> string \<Rightarrow> string \<Rightarrow> string \<Rightarrow> string \<Rightarrow> string \<Rightarrow> int option action" where
  "flash_device_body E source_media target_device target_filesystem_type filesystem_label
       source_fs_mountpoint target_fs_mountpoint temp_directory =
     (if \<not> is_admin E then
        and_then (print_with_color E Warn_not_admin Yellow) (\<lambda>_. ret (Some 1))
      else
        and_then (mount_source_filesystem E source_media source_fs_mountpoint) (\<lambda>m.
        if m \<noteq> 0 then
          and_then (print_with_color E Err_mount_source Red) (\<lambda>_. ret (Some 1))
        else
          and_then
            (if target_filesystem_type = ''FAT'' then
               and_then (check_fat32_filesize_limitation E source_fs_mountpoint) (\<lambda>r.
               ret (if r \<noteq> 0 then ''NTFS'' else target_filesystem_type))
             else ret target_filesystem_type) (\<lambda>target_filesystem_type.
          and_then (format_target_device E target_device target_filesystem_type) (\<lambda>_.
          and_then (wipe_existing_partition_table_and_filesystem_signatures E target_device) (\<lambda>_.
          and_then (create_target_partition_table E target_device ''legacy'') (\<lambda>_.
          and_then (create_target_partition E target_device target_filesystem_type filesystem_label) (\<lambda>_.
          and_then (mount_target_filesystem E target_device target_fs_mountpoint) (\<lambda>t.
          if t \<noteq> 0 then
            and_then (print_with_color E Err_mount_target Red) (\<lambda>_. ret (Some 1))
          else
            and_then (copy_filesystem_files E source_fs_mountpoint target_fs_mountpoint) (\<lambda>_.
            if target_filesystem_type = ''NTFS'' then
              and_then (create_uefi_ntfs_support_partition E target_device) (\<lambda>_.
              and_then (install_uefi_ntfs_support_partition E (target_device @ ''2'') temp_directory) (\<lambda>_.
              ret None))
            else ret None)))))))))"

definition media_source_prefix :: string where
  "media_source_prefix = ''C:'' @ [sep] @ ''media'' @ [sep] @ ''uniflash_source_''"

definition media_target_prefix :: string where
  "media_target_prefix = ''C:'' @ [sep] @ ''media'' @ [sep] @ ''uniflash_target_''"

text \<open>
  \<^verbatim>\<open>flash_device\<close>. \<open>stamp_source\<close> and \<open>stamp_target\<close> are the texts
  "seconds\_pid" of the two mountpoint names. \<^verbatim>\<open>tempfile.mkdtemp\<close> runs before the try
  statement: when it raises, nothing else runs.
\<close>

definition flash_device :: "env \<Rightarrow> string \<Rightarrow> string \<Rightarrow> string \<Rightarrow> string \<Rightarrow> int option action" where
  "flash_device E source_media target_device target_filesystem_type filesystem_label =
     (let source_fs_mountpoint = os_path_join E media_source_prefix (stamp_source E);
          target_fs_mountpoint = os_path_join E media_target_prefix (stamp_target E)
      in and_then (emit (Called ''flash_device'')) (\<lambda>_.
         and_then (tempfile_mkdtemp E) (\<lambda>temp_directory.
         try_finally
           (except_Exception
              (flash_device_body E source_media target_device target_filesystem_type filesystem_label
                 source_fs_mountpoint target_fs_mountpoint temp_directory)
              (\<lambda>error. and_then (print_with_color E (Msg_error_text (str error)) Red) (\<lambda>_. ret (Some 1))))
           (and_then (cleanup E source_fs_mountpoint target_fs_mountpoint temp_directory target_device) (\<lambda>_.
            print_with_color E Msg_flashing_completed Green)))))"

text \<open>The state of a fresh process: nothing logged, the named directories existing, the
  module's initial \<^verbatim>\<open>threading.Thread()\<close> object, never started.\<close>

definition initial_state :: "string set \<Rightarrow> state" where
  "initial_state ds = \<lparr>trace = [], dirs = ds, handle = \<lparr>started = False, stop = False, current_file = []\<rparr>\<rparr>"

subsection \<open>Concrete environments\<close>

text \<open>\<^verbatim>\<open>os.path.join\<close> on two plain path components.\<close>

definition join_backslash :: "string \<Rightarrow> string \<Rightarrow> string" where
  "join_backslash d f = d @ [sep] @ f"

text \<open>
  An environment where every call into the operating system succeeds: run from the
  console by an administrator, the source holding two small files \<open>a\<close> and \<open>b\<close>.
\<close>

definition env_ok :: env where
  "env_ok = \<lparr>gui = False, gui_kill = (\<lambda>t. False), isfile = (\<lambda>p. p = ''install.iso''),
     IsUserAnAdmin = Some True, mkdtemp = Inr ''T'', stamp_source = ''1_2'', stamp_target = ''1_2'',
     os_path_join = join_backslash, makedirs_error = (\<lambda>p. None),
     run = (\<lambda>t c. Completed 0 ''ok''),
     walk = (\<lambda>p. [(p, [], [''a'', ''b''])]),
     getsize = (\<lambda>p. Inr 5), copy2_error = (\<lambda>s d. None), urlretrieve_error = None,
     move_error = (\<lambda>s d. None), rmtree_error = (\<lambda>p. None)\<rparr>"

subsection \<open>Specifications of actions\<close>

text \<open>
  \<open>spec m Q\<close>: from every state, \<open>m\<close> appends some events \<open>evs\<close> to the trace, removes
  no directory, and \<open>Q\<close> holds of \<open>evs\<close> and the outcome.
\<close>

definition spec :: "'a action \<Rightarrow> (event list \<Rightarrow> 'a outcome \<Rightarrow> bool) \<Rightarrow> bool" where
  "spec m Q = (\<forall>st. \<exists>evs. trace (fst (m st)) = trace st @ evs \<and> dirs st \<subseteq> dirs (fst (m st)) \<and> Q evs (snd (m st)))"

text \<open>Every appended event satisfies \<open>p\<close>.\<close>

definition only :: "(event \<Rightarrow> bool) \<Rightarrow> event list \<Rightarrow> 'a outcome \<Rightarrow> bool" where
  "only p evs out = list_all p evs"

text \<open>The events of the try statement of \<^verbatim>\<open>flash_device\<close>, coarsely: no call of
  \<^verbatim>\<open>cleanup\<close>, no "Unable to mount target filesystem", no directory made or removed
  by \<^verbatim>\<open>mkdtemp\<close> or \<^verbatim>\<open>rmtree\<close>.\<close>

fun body_event :: "event \<Rightarrow> bool" where
  "body_event (Called f) = (f \<noteq> ''cleanup'')"
| "body_event (Print m c) = (m \<noteq> Err_mount_target)"
| "body_event (Mkdtemp d) = False"
| "body_event (Rmtree d) = False"
| "body_event _ = True"

text \<open>The commands run against the target device, in the order they were run (every
  command but the mounting of the source image).\<close>

fun device_commands :: "event list \<Rightarrow> command list" where
  "device_commands [] = []"
| "device_commands (Run (Mount_DiskImage s) # evs) = device_commands evs"
| "device_commands (Run c # evs) = c # device_commands evs"
| "device_commands (e # evs) = device_commands evs"

text \<open>An event that is no command against the target device.\<close>

definition quiet :: "event \<Rightarrow> bool" where
  "quiet e = (device_commands [e] = [])"

text \<open>An action that has run exactly the device commands \<open>L\<close> when it returns, and a
  prefix of them when it raises.\<close>

definition issues :: "command list \<Rightarrow> event list \<Rightarrow> 'a outcome \<Rightarrow> bool" where
  "issues L evs out = (case out of Return v \<Rightarrow> device_commands evs = L | Raise e \<Rightarrow> prefix (device_commands evs) L)"

text \<open>The file at \<open>path\<close> has a size, and it is above the FAT32 limit of
  \<open>2^32 - 1\<close> bytes.\<close>

definition oversized :: "env \<Rightarrow> string \<Rightarrow> bool" where
  "oversized E path = (case getsize E path of Inl e \<Rightarrow> False | Inr n \<Rightarrow> n > 2 ^ 32 - 1)"



text \<open>The event \<open>s\<close> does not occur, or it is the last event and the action raises \<open>x\<close>.\<close>

definition stops :: "event \<Rightarrow> exn \<Rightarrow> event list \<Rightarrow> 'a outcome \<Rightarrow> bool" where
  "stops s x evs out = (s \<notin> set evs \<or> (\<exists>pre. evs = pre @ [s] \<and> s \<notin> set pre \<and> out = Raise x))"

text \<open>A poll of the cancellation flag.\<close>

fun is_poll :: "event \<Rightarrow> bool" where
  "is_poll (Kill_polled b) = True"
| "is_poll e = False"

text \<open>Every poll of the cancellation flag in the list comes directly after the entry of
  \<^verbatim>\<open>copy_filesystem_files\<close> or of \<^verbatim>\<open>install_uefi_ntfs_support_partition\<close>
  (\<open>prev\<close> is the event before the list).\<close>

fun polls_at_entry :: "event \<Rightarrow> event list \<Rightarrow> bool" where
  "polls_at_entry prev [] = True"
| "polls_at_entry prev (e # es) =
     ((if is_poll e
       then prev = Called ''copy_filesystem_files'' \<or> prev = Called ''install_uefi_ntfs_support_partition''
       else True) \<and> polls_at_entry e es)"

text \<open>The same of the events an action appends, whatever came before.\<close>

definition entry_polls :: "event list \<Rightarrow> 'a outcome \<Rightarrow> bool" where
  "entry_polls evs out = (\<forall>prev. polls_at_entry prev evs)"

text \<open>A file copy.\<close>

fun is_copy :: "event \<Rightarrow> bool" where
  "is_copy (Copy2 s d) = True"
| "is_copy e = False"

text \<open>A run from the GUI where the user asks to cancel while the first file is being
  copied: the flag is still unset when \<^verbatim>\<open>copy_filesystem_files\<close> polls it (after 24
  events) and set from then on.\<close>

definition env_cancel_during_copy :: env where
  "env_cancel_during_copy = env_ok\<lparr>gui := True, gui_kill := (\<lambda>t. t > 24)\<rparr>"

text \<open>A run from the GUI where the flag is set before anything starts.\<close>

definition env_cancel_at_start :: env where
  "env_cancel_at_start = env_ok\<lparr>gui := True, gui_kill := (\<lambda>t. True)\<rparr>"

text \<open>The commands of the device-modification steps: wiping, writing the partition table,
  creating and formatting a partition.\<close>

fun is_device_modification :: "command \<Rightarrow> bool" where
  "is_device_modification (Diskpart_clean d) = True"
| "is_device_modification (Diskpart_convert d s) = True"
| "is_device_modification (Diskpart_create_partition d t l) = True"
| "is_device_modification c = False"

text \<open>A red message.\<close>

fun is_red :: "event \<Rightarrow> bool" where
  "is_red (Print m c) = (c = Red)"
| "is_red e = False"

definition diskpart_missing :: exn where
  "diskpart_missing = Exn FileNotFoundError ''[WinError 2] The system cannot find the file specified''"

text \<open>Console runs where everything succeeds but one step: diskpart clean ends with exit
  status 1; diskpart cannot be started for the clean step; diskpart cannot be started for
  the partition-table step.\<close>

definition env_wipe_exit_1 :: env where
  "env_wipe_exit_1 = env_ok\<lparr>run := (\<lambda>t c. if c = Diskpart_clean ''1'' then Completed 1 ''error'' else Completed 0 ''ok'')\<rparr>"

definition env_wipe_raises :: env where
  "env_wipe_raises = env_ok\<lparr>run := (\<lambda>t c. if c = Diskpart_clean ''1'' then Failed_to_run diskpart_missing else Completed 0 ''ok'')\<rparr>"

definition env_table_raises :: env where
  "env_table_raises = env_ok\<lparr>run := (\<lambda>t c. if c = Diskpart_convert ''1'' ''mbr'' then Failed_to_run diskpart_missing else Completed 0 ''ok'')\<rparr>"







text \<open>The events of the copy loop for one file: the progress thread is told the path,
  then the file is copied with \<^verbatim>\<open>shutil.copy2\<close> (contents and timestamps) to the
  target mountpoint followed by the path without the text of the source mountpoint.\<close>

definition copy_events :: "string \<Rightarrow> string \<Rightarrow> string \<Rightarrow> event list" where
  "copy_events smp tmp path = [Reporter_file path, Copy2 path (tmp @ replace smp [] path)]"

text \<open>Console runs of the copy alone, started with the source mountpoint \<open>S\<close>, which
  holds the files \<open>a\<close> and \<open>b\<close>: one where the disk is full when \<open>b\<close> is copied,
  and one with the source mountpoint \<open>a\<close>, which holds the file \<open>x\<close> in the
  directory \<open>ba\<close>.\<close>

definition disk_full :: exn where
  "disk_full = Exn OSError ''[Errno 28] No space left on device''"

definition env_disk_full :: env where
  "env_disk_full = env_ok\<lparr>copy2_error := (\<lambda>s d. if s = ''S'' @ [sep] @ ''b'' then Some disk_full else None)\<rparr>"

definition env_nested :: env where
  "env_nested = env_ok\<lparr>walk := (\<lambda>p. [(p, [''ba''], []), (p @ [sep] @ ''ba'', [], [''x''])])\<rparr>"

text \<open>The device commands run are a prefix of \<open>L\<close>, and all of \<open>L\<close> when the body of the
  try statement ran to its end.\<close>

definition completes :: "command list \<Rightarrow> event list \<Rightarrow> int option outcome \<Rightarrow> bool" where
  "completes L evs out =
     (prefix (device_commands evs) L \<and> (out = Return None \<longrightarrow> device_commands evs = L))"

text \<open>The two complete sequences of device commands, for a device that has a partition
  and for a blank one, with file system type \<open>t\<close>.\<close>

definition stages_partitioned :: "string \<Rightarrow> string \<Rightarrow> string \<Rightarrow> command list" where
  "stages_partitioned dev t label =
     [Get_Partition dev, Diskpart_clean dev, Diskpart_convert dev ''mbr'',
      Diskpart_create_partition dev t label]"

definition stages_blank :: "string \<Rightarrow> string \<Rightarrow> string \<Rightarrow> command list" where
  "stages_blank dev t label =
     [Get_Partition dev, Diskpart_create_partition dev t DEFAULT_NEW_FS_LABEL,
      Diskpart_clean dev, Diskpart_convert dev ''mbr'', Diskpart_create_partition dev t label]"

definition sequenced :: "string \<Rightarrow> string \<Rightarrow> string \<Rightarrow> event list \<Rightarrow> int option outcome \<Rightarrow> bool" where
  "sequenced dev t label evs out =
     (completes (stages_partitioned dev t label) evs out \<or> completes (stages_blank dev t label) evs out)"

text \<open>A device on which \<^verbatim>\<open>Get-Partition\<close> finds nothing and prints nothing.\<close>

definition env_blank :: env where
  "env_blank = env_ok\<lparr>run := (\<lambda>t c. if c = Get_Partition ''1'' then Completed 0 [] else Completed 0 ''ok'')\<rparr>"

text \<open>The entry of one of the two functions that call \<^verbatim>\<open>check_kill_signal\<close>.\<close>

definition is_entry :: "event \<Rightarrow> bool" where
  "is_entry e = (e = Called ''copy_filesystem_files'' \<or> e = Called ''install_uefi_ntfs_support_partition'')"

text \<open>Every such entry in the list is directly followed by a poll of the cancellation
  flag.\<close>

fun entries_polled :: "event list \<Rightarrow> bool" where
  "entries_polled [] = True"
| "entries_polled (e # es) =
     ((if is_entry e then (case es of [] \<Rightarrow> False | p # rest \<Rightarrow> is_poll p) else True) \<and>
      entries_polled es)"

text \<open>The same of the events an action appends.\<close>

definition entry_polled :: "event list \<Rightarrow> 'a outcome \<Rightarrow> bool" where
  "entry_polled evs out = entries_polled evs"

text \<open>A cancellation is asked for after the copy: the flag is clear when the copy is
  entered and set when the boot support is about to be fetched.\<close>

definition env_cancel_after_copy :: env where
  "env_cancel_after_copy = env_ok\<lparr>gui := True, gui_kill := (\<lambda>t. t > 24)\<rparr>"

text \<open>A specification that also sees the clock: \<open>Q\<close> gets the length of the log at the
  start of the action, which is the time at which the first of its events happens.\<close>

definition tspec :: "'a action \<Rightarrow> (nat \<Rightarrow> event list \<Rightarrow> 'a outcome \<Rightarrow> bool) \<Rightarrow> bool" where
  "tspec m Q =
     (\<forall>st. \<exists>evs. trace (fst (m st)) = trace st @ evs \<and> dirs st \<subseteq> dirs (fst (m st)) \<and>
        Q (length (trace st)) evs (snd (m st)))"

text \<open>An event that is no device-modification command.\<close>

definition harmless :: "event \<Rightarrow> bool" where
  "harmless ev = (case ev of Run c \<Rightarrow> \<not> is_device_modification c | _ \<Rightarrow> True)"

text \<open>A device-modification command that cannot be run at the moment it is issued is the
  last event of the action, which raises the exception of the command.\<close>

definition halting :: "env \<Rightarrow> nat \<Rightarrow> event list \<Rightarrow> 'a outcome \<Rightarrow> bool" where
  "halting E n evs out =
     (\<forall>i c e. i < length evs \<and> evs ! i = Run c \<and> is_device_modification c \<and>
        run E (n + i) c = Failed_to_run e \<longrightarrow> Suc i = length evs \<and> out = Raise e)"

text \<open>The same below the handler of \<^verbatim>\<open>flash_device\<close>: after such a command only the error
  message follows, and the result is 1 (SystemExit with a GUI).\<close>

definition fatal :: "env \<Rightarrow> nat \<Rightarrow> event list \<Rightarrow> int option outcome \<Rightarrow> bool" where
  "fatal E n evs out =
     (\<forall>i c e. i < length evs \<and> evs ! i = Run c \<and> is_device_modification c \<and>
        run E (n + i) c = Failed_to_run e \<and> is_Exception e \<longrightarrow>
        drop (Suc i) evs = [Print (Msg_error_text (str e)) Red] \<and>
        out = (if gui E then Raise (Exn SystemExit []) else Return (Some 1)))"

text \<open>A blank device on which diskpart works at first and can no longer be started by the
  time the data partition is to be created. The first partition, with the default label,
  is created by the same command at time 14.\<close>

definition env_create_raises_late :: env where
  "env_create_raises_late = env_ok\<lparr>run := (\<lambda>t c.
     if c = Get_Partition ''1'' then Completed 0 []
     else if c = Diskpart_create_partition ''1'' ''FAT'' ''USB'' \<and> t > 14 then Failed_to_run diskpart_missing
     else Completed 0 ''ok'')\<rparr>"

section \<open>Properties\<close>

text \<open>The equations that evaluate the pipeline in a concrete environment.\<close>

lemmas monad_defs = ret_def raise_def and_then_def emit_def except_Exception_def try_finally_def
  except_CalledProcessError_def

lemmas prim_defs = print_with_color_def run_command_def run_command_check_def tempfile_mkdtemp_def
  os_makedirs_def shutil_rmtree_def shutil_copy2_def shutil_move_def walk_paths_def
  strip_is_empty_def is_space_def join_backslash_def

lemmas core_defs = check_fat32_filesize_limitation_def check_kill_signal_def is_admin_def
  create_target_partition_def format_target_device_def
  wipe_existing_partition_table_and_filesystem_signatures_def create_target_partition_table_def
  create_uefi_ntfs_support_partition_def install_uefi_ntfs_support_partition_def
  mount_source_filesystem_def mount_target_filesystem_def copy_filesystem_files_def
  is_alive_def cleanup_def flash_device_body_def flash_device_def initial_state_def
  DEFAULT_NEW_FS_LABEL_def is_urllib_error_def is_Exception_def Let_def

lemma match_drive_exclusive: "match_drive_backslash s \<Longrightarrow> \<not> match_drive_only s"
  by (cases s rule: match_drive_only.cases) (auto simp: sep_def)

text \<open>
  C4. The claim: \<^verbatim>\<open>check_runtime_parameters\<close> accepts (returns 0) when the source is a
  regular file and the target has the syntax of the install mode, in particular a bare
  drive letter such as "X:" in device mode. The code rejects it: the first target check
  demands a backslash after the colon for every mode, and the device check then demands
  that the string ends after the colon, so in device mode no target passes both. Whatever
  the source, the target and the environment, the outcome in device mode is never
  "returned 0".
\<close>

theorem check_runtime_parameters_device_never_accepts:
  "snd (check_runtime_parameters E ''device'' source_media target_media st) \<noteq> Return 0"
  using match_drive_exclusive [of target_media]
  by (simp add: check_runtime_parameters_def print_with_color_def and_then_def emit_def
      ret_def raise_def)

subsection \<open>Rules for specifications\<close>

lemma spec_ret: "Q [] (Return v) \<Longrightarrow> spec (ret v) Q"
  by (simp add: spec_def ret_def)

lemma spec_raise: "Q [] (Raise e) \<Longrightarrow> spec (raise e) Q"
  by (simp add: spec_def raise_def)

lemma spec_emit: "Q [ev] (Return ()) \<Longrightarrow> spec (emit ev) Q"
  by (simp add: spec_def emit_def)

lemma spec_weaken: "spec m R \<Longrightarrow> (\<And>evs out. R evs out \<Longrightarrow> T evs out) \<Longrightarrow> spec m T"
  unfolding spec_def by blast

lemma spec_and_then:
  assumes m: "spec m R"
    and k: "\<And>a v. R a (Return v) \<Longrightarrow> spec (k v) (S v)"
    and raised: "\<And>a e. R a (Raise e) \<Longrightarrow> T a (Raise e)"
    and returned: "\<And>a v b out. R a (Return v) \<Longrightarrow> S v b out \<Longrightarrow> T (a @ b) out"
  shows "spec (and_then m k) T"
  unfolding spec_def
proof
  fix st
  from m obtain a where a: "trace (fst (m st)) = trace st @ a" "dirs st \<subseteq> dirs (fst (m st))" "R a (snd (m st))"
    unfolding spec_def by blast
  show "\<exists>evs. trace (fst (and_then m k st)) = trace st @ evs \<and> dirs st \<subseteq> dirs (fst (and_then m k st)) \<and> T evs (snd (and_then m k st))"
  proof (cases "snd (m st)")
    case (Raise e)
    then have "and_then m k st = (fst (m st), Raise e)"
      by (cases "m st") (simp add: and_then_def)
    with a Raise raised show ?thesis by auto
  next
    case (Return v)
    then have eq: "and_then m k st = k v (fst (m st))"
      by (cases "m st") (simp add: and_then_def)
    from a Return have "R a (Return v)" by simp
    from k [OF this] obtain b where b: "trace (fst (k v (fst (m st)))) = trace (fst (m st)) @ b"
      "dirs (fst (m st)) \<subseteq> dirs (fst (k v (fst (m st))))" "S v b (snd (k v (fst (m st))))"
      unfolding spec_def by blast
    from a Return b returned [of a v b] have "T (a @ b) (snd (k v (fst (m st))))" by simp
    with a b eq show ?thesis by auto
  qed
qed

lemma spec_if: "(c \<Longrightarrow> spec a Q) \<Longrightarrow> (\<not> c \<Longrightarrow> spec b Q) \<Longrightarrow> spec (if c then a else b) Q"
  by simp

lemma spec_case_prod: "(\<And>a b. spec (f a b) Q) \<Longrightarrow> spec (case_prod f v) Q"
  by (cases v) simp

lemma spec_case_option:
  "(v = None \<Longrightarrow> spec a Q) \<Longrightarrow> (\<And>x. v = Some x \<Longrightarrow> spec (f x) Q) \<Longrightarrow>
   spec (case v of None \<Rightarrow> a | Some x \<Rightarrow> f x) Q"
  by (cases v) simp_all

lemma spec_case_sum:
  "(\<And>x. v = Inl x \<Longrightarrow> spec (f x) Q) \<Longrightarrow> (\<And>y. v = Inr y \<Longrightarrow> spec (g y) Q) \<Longrightarrow>
   spec (case v of Inl x \<Rightarrow> f x | Inr y \<Rightarrow> g y) Q"
  by (cases v) simp_all

lemma spec_state_if: "spec a Q \<Longrightarrow> spec b Q \<Longrightarrow> spec (\<lambda>st. if c st then a st else b st) Q"
  unfolding spec_def by simp

lemma spec_print:
  "Q [Print m c] (if gui E \<and> c = Red then Raise (Exn SystemExit []) else Return ()) \<Longrightarrow>
   spec (print_with_color E m c) Q"
  by (auto simp add: spec_def print_with_color_def and_then_def emit_def raise_def ret_def)

lemma spec_run:
  assumes "\<And>t. Q [Run c] (case run E t c of Completed rc out \<Rightarrow> Return (rc, out) | Failed_to_run e \<Rightarrow> Raise e)"
  shows "spec (run_command E c) Q"
  unfolding spec_def
proof
  fix st
  show "\<exists>evs. trace (fst (run_command E c st)) = trace st @ evs \<and>
          dirs st \<subseteq> dirs (fst (run_command E c st)) \<and> Q evs (snd (run_command E c st))"
    using assms [of "length (trace st)"]
    by (simp add: run_command_def and_then_def emit_def raise_def ret_def Let_def
        split: proc_result.splits)
qed

lemma spec_check_kill_signal:
  "(\<not> gui E \<Longrightarrow> Q [] (Return ())) \<Longrightarrow> (gui E \<Longrightarrow> Q [Kill_polled False] (Return ())) \<Longrightarrow>
   (gui E \<Longrightarrow> Q [Kill_polled True] (Raise (Exn SystemExit []))) \<Longrightarrow>
   spec (check_kill_signal E) Q"
  by (simp add: spec_def check_kill_signal_def and_then_def emit_def raise_def ret_def Let_def)

lemma spec_copy2:
  "Q [Copy2 src dst] (case copy2_error E src dst of Some e \<Rightarrow> Raise e | None \<Rightarrow> Return ()) \<Longrightarrow>
   spec (shutil_copy2 E src dst) Q"
  by (simp add: spec_def shutil_copy2_def and_then_def emit_def raise_def ret_def split: option.splits)

lemma spec_move:
  "Q [Move src dst] (case move_error E src dst of Some e \<Rightarrow> Raise e | None \<Rightarrow> Return ()) \<Longrightarrow>
   spec (shutil_move E src dst) Q"
  by (simp add: spec_def shutil_move_def and_then_def emit_def raise_def ret_def split: option.splits)

lemma spec_makedirs:
  "Q [Makedirs p] (case makedirs_error E p of Some e \<Rightarrow> Raise e | None \<Rightarrow> Return ()) \<Longrightarrow>
   spec (os_makedirs E p) Q"
  by (auto simp add: spec_def os_makedirs_def split: option.splits)

lemma spec_update:
  "Q [ev] (Return ()) \<Longrightarrow> spec (\<lambda>st. (st\<lparr>trace := trace st @ [ev], handle := h st\<rparr>, Return ())) Q"
  by (simp add: spec_def)

lemma only_and_then:
  "spec m (only p) \<Longrightarrow> (\<And>v. spec (k v) (only p)) \<Longrightarrow> spec (and_then m k) (only p)"
  by (rule spec_and_then [where R = "only p" and S = "\<lambda>v. only p"]) (simp_all add: only_def)

lemma only_ret: "spec (ret v) (only p)"
  by (simp add: spec_ret only_def)

lemma only_raise: "spec (raise e) (only p)"
  by (simp add: spec_raise only_def)

lemma only_emit: "p ev \<Longrightarrow> spec (emit ev) (only p)"
  by (simp add: spec_emit only_def)

lemma only_print: "p (Print m c) \<Longrightarrow> spec (print_with_color E m c) (only p)"
  by (simp add: spec_print only_def)

lemma only_run: "p (Run c) \<Longrightarrow> spec (run_command E c) (only p)"
  by (simp add: spec_run only_def)

lemma only_check_kill_signal:
  "p (Kill_polled False) \<Longrightarrow> p (Kill_polled True) \<Longrightarrow> spec (check_kill_signal E) (only p)"
  by (simp add: spec_check_kill_signal only_def)

lemma only_copy2: "p (Copy2 src dst) \<Longrightarrow> spec (shutil_copy2 E src dst) (only p)"
  by (simp add: spec_copy2 only_def)

lemma only_move: "p (Move src dst) \<Longrightarrow> spec (shutil_move E src dst) (only p)"
  by (simp add: spec_move only_def)

lemma only_makedirs: "p (Makedirs d) \<Longrightarrow> spec (os_makedirs E d) (only p)"
  by (simp add: spec_makedirs only_def)

lemma only_update:
  "p ev \<Longrightarrow> spec (\<lambda>st. (st\<lparr>trace := trace st @ [ev], handle := h st\<rparr>, Return ())) (only p)"
  by (simp add: spec_update only_def)

lemmas only_intros = only_and_then only_ret only_raise only_emit only_print only_run
  only_check_kill_signal only_copy2 only_move only_makedirs only_update spec_if spec_state_if
  spec_case_prod spec_case_option spec_case_sum

lemma only_create_target_partition:
  "p (Called ''create_target_partition'') \<Longrightarrow> p (Print Msg_creating_partition Green) \<Longrightarrow>
   p (Run (Diskpart_create_partition d fs l)) \<Longrightarrow>
   spec (create_target_partition E d fs l) (only p)"
  unfolding create_target_partition_def by (intro only_intros) simp_all

lemma only_format_target_device:
  "p (Called ''format_target_device'') \<Longrightarrow> p (Print (Msg_checking_and_formatting d) Green) \<Longrightarrow>
   p (Run (Get_Partition d)) \<Longrightarrow> p (Print Msg_no_partitions_found Green) \<Longrightarrow>
   p (Print Msg_already_has_partition Green) \<Longrightarrow>
   p (Called ''create_target_partition'') \<Longrightarrow> p (Print Msg_creating_partition Green) \<Longrightarrow>
   p (Run (Diskpart_create_partition d fs DEFAULT_NEW_FS_LABEL)) \<Longrightarrow>
   spec (format_target_device E d fs) (only p)"
  unfolding format_target_device_def
  by (intro only_intros only_create_target_partition) simp_all

lemma spec_except_CalledProcessError:
  assumes m: "spec m R" and h: "spec h S"
    and returned: "\<And>a v. R a (Return v) \<Longrightarrow> T a (Return v)"
    and passed: "\<And>a e. R a (Raise e) \<Longrightarrow> exn_cls e \<noteq> CalledProcessError \<Longrightarrow> T a (Raise e)"
    and handled: "\<And>a e b out. R a (Raise e) \<Longrightarrow> exn_cls e = CalledProcessError \<Longrightarrow> S b out \<Longrightarrow> T (a @ b) out"
  shows "spec (except_CalledProcessError m h) T"
  unfolding spec_def
proof
  fix st
  let ?r = "except_CalledProcessError m h st"
  from m obtain a where a: "trace (fst (m st)) = trace st @ a" "dirs st \<subseteq> dirs (fst (m st))" "R a (snd (m st))"
    unfolding spec_def by blast
  from h obtain b where b: "trace (fst (h (fst (m st)))) = trace (fst (m st)) @ b"
      "dirs (fst (m st)) \<subseteq> dirs (fst (h (fst (m st))))" "S b (snd (h (fst (m st))))"
    unfolding spec_def by blast
  show "\<exists>evs. trace (fst ?r) = trace st @ evs \<and> dirs st \<subseteq> dirs (fst ?r) \<and> T evs (snd ?r)"
  proof (cases "snd (m st)")
    case (Return v)
    then have "?r = (fst (m st), Return v)"
      by (cases "m st") (simp add: except_CalledProcessError_def)
    with a Return returned show ?thesis by auto
  next
    case (Raise e)
    show ?thesis
    proof (cases "exn_cls e = CalledProcessError")
      case True
      with Raise have "?r = h (fst (m st))"
        by (cases "m st") (simp add: except_CalledProcessError_def)
      moreover from a Raise True b handled [of a e b] have "T (a @ b) (snd (h (fst (m st))))" by simp
      ultimately show ?thesis using a b by auto
    next
      case False
      with Raise have "?r = (fst (m st), Raise e)"
        by (cases "m st") (simp add: except_CalledProcessError_def)
      with a Raise False passed show ?thesis by auto
    qed
  qed
qed

lemma spec_except_Exception:
  assumes m: "spec m R" and h: "\<And>e. spec (h e) (S e)"
    and returned: "\<And>a v. R a (Return v) \<Longrightarrow> T a (Return v)"
    and passed: "\<And>a e. R a (Raise e) \<Longrightarrow> \<not> is_Exception e \<Longrightarrow> T a (Raise e)"
    and handled: "\<And>a e b out. R a (Raise e) \<Longrightarrow> is_Exception e \<Longrightarrow> S e b out \<Longrightarrow> T (a @ b) out"
  shows "spec (except_Exception m h) T"
  unfolding spec_def
proof
  fix st
  let ?r = "except_Exception m h st"
  from m obtain a where a: "trace (fst (m st)) = trace st @ a" "dirs st \<subseteq> dirs (fst (m st))" "R a (snd (m st))"
    unfolding spec_def by blast
  show "\<exists>evs. trace (fst ?r) = trace st @ evs \<and> dirs st \<subseteq> dirs (fst ?r) \<and> T evs (snd ?r)"
  proof (cases "snd (m st)")
    case (Return v)
    then have "?r = (fst (m st), Return v)"
      by (cases "m st") (simp add: except_Exception_def)
    with a Return returned show ?thesis by auto
  next
    case (Raise e)
    show ?thesis
    proof (cases "is_Exception e")
      case True
      from h [of e] obtain b where b: "trace (fst (h e (fst (m st)))) = trace (fst (m st)) @ b"
        "dirs (fst (m st)) \<subseteq> dirs (fst (h e (fst (m st))))" "S e b (snd (h e (fst (m st))))"
        unfolding spec_def by blast
      from Raise True have "?r = h e (fst (m st))"
        by (cases "m st") (simp add: except_Exception_def)
      moreover from a Raise True b handled [of a e b] have "T (a @ b) (snd (h e (fst (m st))))" by simp
      ultimately show ?thesis using a b by auto
    next
      case False
      with Raise have "?r = (fst (m st), Raise e)"
        by (cases "m st") (simp add: except_Exception_def)
      with a Raise False passed show ?thesis by auto
    qed
  qed
qed

lemma only_except_CalledProcessError:
  "spec m (only p) \<Longrightarrow> spec h (only p) \<Longrightarrow> spec (except_CalledProcessError m h) (only p)"
  by (rule spec_except_CalledProcessError [where R = "only p" and S = "only p"]) (simp_all add: only_def)

lemma only_except_Exception:
  "spec m (only p) \<Longrightarrow> (\<And>e. spec (h e) (only p)) \<Longrightarrow> spec (except_Exception m h) (only p)"
  by (rule spec_except_Exception [where R = "only p" and S = "\<lambda>e. only p"]) (simp_all add: only_def)

lemma only_run_check: "p (Run c) \<Longrightarrow> spec (run_command_check E c) (only p)"
  unfolding run_command_check_def by (intro only_intros) simp_all

lemma only_wipe:
  "p (Called ''wipe_existing_partition_table_and_filesystem_signatures'') \<Longrightarrow>
   p (Print (Msg_wiping d) Green) \<Longrightarrow> p (Run (Diskpart_clean d)) \<Longrightarrow>
   spec (wipe_existing_partition_table_and_filesystem_signatures E d) (only p)"
  unfolding wipe_existing_partition_table_and_filesystem_signatures_def
  by (intro only_intros) simp_all

lemma only_create_target_partition_table:
  "p (Called ''create_target_partition_table'') \<Longrightarrow>
   p (Print (Msg_creating_partition_table d) Green) \<Longrightarrow>
   p (Run (Diskpart_convert d ''mbr'')) \<Longrightarrow> p (Run (Diskpart_convert d ''gpt'')) \<Longrightarrow>
   spec (create_target_partition_table E d ty) (only p)"
  unfolding create_target_partition_table_def
  by (intro only_intros) simp_all

lemma only_create_uefi:
  "p (Called ''create_uefi_ntfs_support_partition'') \<Longrightarrow> p (Print Msg_creating_uefi_ntfs Green) \<Longrightarrow>
   spec (create_uefi_ntfs_support_partition E d) (only p)"
  unfolding create_uefi_ntfs_support_partition_def
  by (intro only_intros) simp_all

lemma only_install_uefi:
  "p (Called ''install_uefi_ntfs_support_partition'') \<Longrightarrow> p (Kill_polled False) \<Longrightarrow>
   p (Kill_polled True) \<Longrightarrow> p (Urlretrieve uefi_ntfs_url ''uefi-ntfs.img'') \<Longrightarrow>
   p (Print Warn_uefi_download Yellow) \<Longrightarrow>
   p (Move ''uefi-ntfs.img'' (dl @ ''/'' @ ''uefi-ntfs.img'')) \<Longrightarrow>
   p (Copy2 (dl @ ''/uefi-ntfs.img'') part) \<Longrightarrow>
   spec (install_uefi_ntfs_support_partition E part dl) (only p)"
  unfolding install_uefi_ntfs_support_partition_def
  by (intro only_intros) simp_all

lemma only_mount_source:
  "p (Called ''mount_source_filesystem'') \<Longrightarrow> p (Print Msg_mounting_source Green) \<Longrightarrow>
   p (Makedirs mp) \<Longrightarrow> p (Run (Mount_DiskImage src)) \<Longrightarrow>
   spec (mount_source_filesystem E src mp) (only p)"
  unfolding mount_source_filesystem_def
  by (intro only_intros only_except_CalledProcessError only_run_check) simp_all

lemma only_mount_target:
  "p (Called ''mount_target_filesystem'') \<Longrightarrow> p (Print Msg_mounting_target Green) \<Longrightarrow>
   spec (mount_target_filesystem E d mp) (only p)"
  unfolding mount_target_filesystem_def
  by (intro only_intros) simp_all

lemma only_check_fat32_loop:
  "(\<And>q. p (Getsize q)) \<Longrightarrow> (\<And>q. p (Print (Warn_fat32_limit q) Yellow)) \<Longrightarrow>
   spec (check_fat32_loop E ps) (only p)"
proof (induction ps)
  case Nil
  show ?case by (simp add: only_ret)
next
  case (Cons q ps)
  show ?case
    unfolding check_fat32_loop.simps
    by (intro only_intros Cons.IH) (simp_all add: Cons.prems)
qed

lemma only_copy_loop:
  "(\<And>q. p (Reporter_file q)) \<Longrightarrow> (\<And>a b. p (Copy2 a b)) \<Longrightarrow>
   spec (copy_loop E smp tmp ps) (only p)"
proof (induction ps)
  case Nil
  show ?case by (simp add: only_ret)
next
  case (Cons q ps)
  show ?case
    unfolding copy_loop.simps
    by (intro only_intros Cons.IH) (simp_all add: Cons.prems)
qed

lemma only_copy_filesystem_files:
  "p (Called ''copy_filesystem_files'') \<Longrightarrow> p (Kill_polled False) \<Longrightarrow> p (Kill_polled True) \<Longrightarrow>
   p (Reporter_start smp tmp) \<Longrightarrow> p Reporter_stop \<Longrightarrow>
   (\<And>q. p (Reporter_file q)) \<Longrightarrow> (\<And>a b. p (Copy2 a b)) \<Longrightarrow>
   spec (copy_filesystem_files E smp tmp) (only p)"
  unfolding copy_filesystem_files_def
  by (intro only_intros only_copy_loop) simp_all

lemma flash_device_decompose:
  assumes mk: "mkdtemp E = Inr temp"
    and g: "spec (except_Exception
              (flash_device_body E src dev fs label
                 (os_path_join E media_source_prefix (stamp_source E))
                 (os_path_join E media_target_prefix (stamp_target E)) temp)
              (\<lambda>error. and_then (print_with_color E (Msg_error_text (str error)) Red) (\<lambda>_. ret (Some 1)))) Q"
  shows "\<exists>evs out. Q evs out \<and>
           trace (fst (flash_device E src dev fs label st)) =
             trace st @ [Called ''flash_device'', Mkdtemp temp] @ evs @ [Called ''cleanup'', Rmtree temp] @
             (case rmtree_error E temp of None \<Rightarrow> [Print Msg_flashing_completed Green] | Some e \<Rightarrow> []) \<and>
           snd (flash_device E src dev fs label st) =
             (case rmtree_error E temp of Some e \<Rightarrow> Raise e | None \<Rightarrow> out)"
proof -
  let ?G = "except_Exception
              (flash_device_body E src dev fs label
                 (os_path_join E media_source_prefix (stamp_source E))
                 (os_path_join E media_target_prefix (stamp_target E)) temp)
              (\<lambda>error. and_then (print_with_color E (Msg_error_text (str error)) Red) (\<lambda>_. ret (Some 1)))"
  let ?st1 = "st\<lparr>trace := trace st @ [Called ''flash_device''] @ [Mkdtemp temp], dirs := insert temp (dirs st)\<rparr>"
  from g obtain evs where evs: "trace (fst (?G ?st1)) = trace ?st1 @ evs"
    "dirs ?st1 \<subseteq> dirs (fst (?G ?st1))" "Q evs (snd (?G ?st1))"
    unfolding spec_def by blast
  obtain st2 out where G: "?G ?st1 = (st2, out)" by (cases "?G ?st1")
  with evs have st2: "trace st2 = trace st @ [Called ''flash_device'', Mkdtemp temp] @ evs"
    "temp \<in> dirs st2" "Q evs out" by auto
  have "flash_device E src dev fs label st =
          try_finally ?G
            (and_then (cleanup E (os_path_join E media_source_prefix (stamp_source E))
                 (os_path_join E media_target_prefix (stamp_target E)) temp dev)
               (\<lambda>_. print_with_color E Msg_flashing_completed Green)) ?st1"
    by (simp add: flash_device_def Let_def and_then_def emit_def tempfile_mkdtemp_def mk)
  also have "\<dots> = (case rmtree_error E temp of
        Some e \<Rightarrow> (st2\<lparr>trace := trace st2 @ [Called ''cleanup'', Rmtree temp],
                      handle := (if is_alive (handle st2) then (handle st2)\<lparr>stop := True\<rparr> else handle st2)\<rparr>, Raise e)
      | None \<Rightarrow> (st2\<lparr>trace := trace st2 @ [Called ''cleanup'', Rmtree temp, Print Msg_flashing_completed Green],
                      handle := (if is_alive (handle st2) then (handle st2)\<lparr>stop := True\<rparr> else handle st2),
                      dirs := dirs st2 - {temp}\<rparr>, out))"
    using G st2(2)
    by (simp add: try_finally_def cleanup_def and_then_def emit_def ret_def raise_def
        shutil_rmtree_def print_with_color_def split: option.splits)
  finally have "flash_device E src dev fs label st = (case rmtree_error E temp of
        Some e \<Rightarrow> (st2\<lparr>trace := trace st2 @ [Called ''cleanup'', Rmtree temp],
                      handle := (if is_alive (handle st2) then (handle st2)\<lparr>stop := True\<rparr> else handle st2)\<rparr>, Raise e)
      | None \<Rightarrow> (st2\<lparr>trace := trace st2 @ [Called ''cleanup'', Rmtree temp, Print Msg_flashing_completed Green],
                      handle := (if is_alive (handle st2) then (handle st2)\<lparr>stop := True\<rparr> else handle st2),
                      dirs := dirs st2 - {temp}\<rparr>, out))" .
  with st2 show ?thesis
    by (intro exI [of _ evs] exI [of _ out]) (simp split: option.splits)
qed

lemma mount_target_filesystem_returns_0:
  "mount_target_filesystem E d mp st =
     (st\<lparr>trace := trace st @ [Called ''mount_target_filesystem'', Print Msg_mounting_target Green]\<rparr>, Return 0)"
  by (simp add: mount_target_filesystem_def and_then_def emit_def print_with_color_def ret_def)

lemma spec_mount_target:
  "Q [Called ''mount_target_filesystem'', Print Msg_mounting_target Green] (Return 0) \<Longrightarrow>
   spec (mount_target_filesystem E d mp) Q"
  by (simp add: spec_def mount_target_filesystem_returns_0)

lemma only_and_then_mount_target:
  assumes "p (Called ''mount_target_filesystem'')" "p (Print Msg_mounting_target Green)"
    and k: "spec (k 0) (only p)"
  shows "spec (and_then (mount_target_filesystem E d mp) k) (only p)"
proof (rule spec_and_then [where R = "\<lambda>evs out. list_all p evs \<and> out = Return 0" and S = "\<lambda>v. only p"])
  show "spec (mount_target_filesystem E d mp) (\<lambda>evs out. list_all p evs \<and> out = Return 0)"
    using assms(1,2) by (simp add: spec_mount_target)
qed (use k in \<open>simp_all add: only_def\<close>)

lemma only_flash_device_body:
  "spec (flash_device_body E src dev fs label smp tmp temp) (only body_event)"
  unfolding flash_device_body_def
  by (intro only_and_then_mount_target only_intros only_mount_source only_check_fat32_loop
      only_format_target_device only_wipe only_create_target_partition_table
      only_create_target_partition only_copy_filesystem_files only_create_uefi
      only_install_uefi) (simp_all add: check_fat32_filesize_limitation_def only_check_fat32_loop)

lemma only_flash_device_guarded:
  "spec (except_Exception (flash_device_body E src dev fs label smp tmp temp)
      (\<lambda>error. and_then (print_with_color E (Msg_error_text (str error)) Red) (\<lambda>_. ret (Some 1))))
     (only body_event)"
  by (intro only_except_Exception only_flash_device_body only_intros) simp_all

text \<open>
  C1. Every invocation of \<^verbatim>\<open>flash_device\<close> that enters its try statement (the
  temporary directory of the session was created) calls \<^verbatim>\<open>cleanup\<close> exactly once,
  whatever the environment answers: on normal completion, on each early \<^verbatim>\<open>return 1\<close>,
  and when a step raises (an \<^verbatim>\<open>Exception\<close> caught by the except clause, or
  \<^verbatim>\<open>SystemExit\<close> passing through the finally clause). The count of calls in the
  trace grows by one.
\<close>

theorem flash_device_cleanup_once:
  assumes "mkdtemp E = Inr temp"
  shows "count_list (trace (fst (flash_device E src dev fs label st))) (Called ''cleanup'') =
         count_list (trace st) (Called ''cleanup'') + 1"
proof -
  from flash_device_decompose [OF assms only_flash_device_guarded]
  obtain evs out where evs: "list_all body_event evs"
    and tr: "trace (fst (flash_device E src dev fs label st)) =
             trace st @ [Called ''flash_device'', Mkdtemp temp] @ evs @ [Called ''cleanup'', Rmtree temp] @
             (case rmtree_error E temp of None \<Rightarrow> [Print Msg_flashing_completed Green] | Some e \<Rightarrow> [])"
    unfolding only_def by blast
  from evs have "count_list evs (Called ''cleanup'') = 0"
    by (induction evs) auto
  with tr show ?thesis by (simp split: option.splits)
qed

theorem flash_device_cleanup_once_witness:
  "mkdtemp env_ok = Inr ''T'' \<and>
   count_list (trace (fst (flash_device env_ok ''install.iso'' ''1'' ''FAT'' ''USB'' (initial_state {}))))
     (Called ''cleanup'') = 1"
  using flash_device_cleanup_once [of env_ok "''T''" "''install.iso''" "''1''" "''FAT''" "''USB''" "initial_state {}"]
  by (simp add: env_ok_def initial_state_def)

text \<open>
  C10. \<^verbatim>\<open>mount_target_filesystem\<close> returns 0 for every pair of arguments and only
  logs its call and prints its message: it runs no command and changes nothing else in
  the state. So \<^verbatim>\<open>flash_device\<close> never prints "Unable to mount target filesystem":
  the branch that does is unreachable.
\<close>

theorem mount_target_never_fails:
  "mount_target_filesystem E dev mp st =
     (st\<lparr>trace := trace st @ [Called ''mount_target_filesystem'', Print Msg_mounting_target Green]\<rparr>, Return 0)
   \<and> Print Err_mount_target Red \<notin> set (trace (fst (flash_device E src dev fs label (initial_state ds))))"
proof
  show "mount_target_filesystem E dev mp st =
     (st\<lparr>trace := trace st @ [Called ''mount_target_filesystem'', Print Msg_mounting_target Green]\<rparr>, Return 0)"
    by (rule mount_target_filesystem_returns_0)
  show "Print Err_mount_target Red \<notin> set (trace (fst (flash_device E src dev fs label (initial_state ds))))"
  proof (cases "mkdtemp E")
    case (Inl e)
    then show ?thesis
      by (simp add: flash_device_def Let_def and_then_def emit_def tempfile_mkdtemp_def initial_state_def)
  next
    case (Inr temp)
    from flash_device_decompose [OF Inr only_flash_device_guarded]
    obtain evs out where evs: "list_all body_event evs"
      and tr: "trace (fst (flash_device E src dev fs label (initial_state ds))) =
             trace (initial_state ds) @ [Called ''flash_device'', Mkdtemp temp] @ evs @ [Called ''cleanup'', Rmtree temp] @
             (case rmtree_error E temp of None \<Rightarrow> [Print Msg_flashing_completed Green] | Some e \<Rightarrow> [])"
      unfolding only_def by blast
    from evs have "Print Err_mount_target Red \<notin> set evs"
      by (induction evs) auto
    with tr show ?thesis by (simp add: initial_state_def split: option.splits)
  qed
qed

subsection \<open>The order of the device commands\<close>

lemma device_commands_Cons: "device_commands (e # evs) = device_commands [e] @ device_commands evs"
  by (cases "(e # evs)" rule: device_commands.cases) simp_all

lemma device_commands_append: "device_commands (a @ b) = device_commands a @ device_commands b"
proof (induction a)
  case Nil
  show ?case by simp
next
  case (Cons e a)
  have "device_commands ((e # a) @ b) = device_commands [e] @ device_commands (a @ b)"
    using device_commands_Cons [of e "a @ b"] by simp
  also have "\<dots> = device_commands [e] @ device_commands a @ device_commands b"
    by (simp add: Cons.IH)
  also have "\<dots> = device_commands (e # a) @ device_commands b"
    using device_commands_Cons [of e a] by simp
  finally show ?case .
qed

lemma device_commands_quiet: "list_all quiet evs \<Longrightarrow> device_commands evs = []"
proof (induction evs)
  case Nil
  show ?case by simp
next
  case (Cons e evs)
  then show ?case using device_commands_Cons [of e evs] by (simp add: quiet_def)
qed

lemma quiet_then_issues:
  assumes m: "spec m (only quiet)" and k: "\<And>v. spec (k v) (issues L)"
  shows "spec (and_then m k) (issues L)"
  by (rule spec_and_then [OF m k])
    (auto simp: only_def issues_def device_commands_append device_commands_quiet split: outcome.splits)

lemma issues_then_ret:
  assumes m: "spec m (issues L)"
  shows "spec (and_then m (\<lambda>_. ret v)) (issues L)"
proof (rule spec_and_then [OF m, where S = "\<lambda>_ evs out. evs = [] \<and> out = Return v"])
  show "\<And>a u. issues L a (Return u) \<Longrightarrow> spec (ret v) (\<lambda>evs out. evs = [] \<and> out = Return v)"
    by (simp add: spec_ret)
qed (auto simp: issues_def)

lemma issues_run:
  "device_commands [Run c] = [c] \<Longrightarrow> spec (run_command E c) (issues [c])"
  by (rule spec_run) (simp add: issues_def split: proc_result.splits)

lemmas issues_intros = quiet_then_issues issues_then_ret issues_run only_emit only_print

lemma issues_wipe:
  "spec (wipe_existing_partition_table_and_filesystem_signatures E d) (issues [Diskpart_clean d])"
  unfolding wipe_existing_partition_table_and_filesystem_signatures_def
  by (intro issues_intros) (simp_all add: quiet_def)

lemma issues_create_target_partition:
  "spec (create_target_partition E d fs l) (issues [Diskpart_create_partition d fs l])"
  unfolding create_target_partition_def
  by (intro issues_intros) (simp_all add: quiet_def)

lemma issues_create_target_partition_table:
  "spec (create_target_partition_table E d ''legacy'') (issues [Diskpart_convert d ''mbr''])"
  unfolding create_target_partition_table_def
  by (intro issues_intros | simp add: quiet_def)+

lemma prefix_single_extend: "prefix xs [c] \<Longrightarrow> prefix xs (c # L)"
  using prefix_order.trans [of xs "[c]" "c # L"] by simp

lemma format_target_device_issues:
  "spec (format_target_device E d fs)
     (\<lambda>evs out. issues [Get_Partition d] evs out \<or>
        issues [Get_Partition d, Diskpart_create_partition d fs DEFAULT_NEW_FS_LABEL] evs out)"
  unfolding spec_def format_target_device_def create_target_partition_def
  by (auto simp: and_then_def emit_def print_with_color_def run_command_def ret_def raise_def
      issues_def Let_def split: proc_result.splits)

lemma check_fat32_loop_result:
  "snd (check_fat32_loop E ps st) = Return r \<Longrightarrow> (r \<noteq> 0) = list_ex (oversized E) ps"
proof (induction ps arbitrary: st)
  case Nil
  then show ?case by (simp add: ret_def)
next
  case (Cons q ps)
  show ?case
  proof (cases "getsize E q")
    case (Inl e)
    with Cons.prems show ?thesis
      by (simp add: and_then_def emit_def raise_def)
  next
    case (Inr n)
    show ?thesis
    proof (cases "n > 2 ^ 32 - 1")
      case True
      with Inr Cons.prems show ?thesis
        by (auto simp add: and_then_def emit_def print_with_color_def ret_def oversized_def)
    next
      case False
      with Inr Cons.prems have "snd (check_fat32_loop E ps (st\<lparr>trace := trace st @ [Getsize q]\<rparr>)) = Return r"
        by (simp add: and_then_def emit_def)
      from Cons.IH [OF this] False Inr show ?thesis
        by (simp add: oversized_def)
    qed
  qed
qed

lemma spec_conj_result:
  "spec m Q \<Longrightarrow> (\<And>st. R (snd (m st))) \<Longrightarrow> spec m (\<lambda>evs out. Q evs out \<and> R out)"
  unfolding spec_def by blast





text \<open>
  C9. The claim: \<^verbatim>\<open>cleanup\<close> is idempotent and safe to call when resources were never
  acquired. The code removes the temporary directory with \<^verbatim>\<open>shutil.rmtree\<close> without
  looking whether it exists: the first call on a session whose temporary directory
  exists returns, the second call on the state it leaves raises FileNotFoundError, and so
  does a call when the directory was never created.
\<close>

theorem cleanup_twice_counterexample:
  "snd (cleanup env_ok ''S'' ''M'' ''T'' ''1'' (initial_state {''T''})) = Return () \<and>
   snd (cleanup env_ok ''S'' ''M'' ''T'' ''1''
          (fst (cleanup env_ok ''S'' ''M'' ''T'' ''1'' (initial_state {''T''})))) =
     Raise (Exn FileNotFoundError ''T'') \<and>
   snd (cleanup env_ok ''S'' ''M'' ''T'' ''1'' (initial_state {})) = Raise (Exn FileNotFoundError ''T'')"
  by (simp add: monad_defs prim_defs core_defs env_ok_def)

text \<open>
  C9, amended. \<^verbatim>\<open>cleanup\<close> returns exactly when the temporary directory exists and
  can be removed, whatever the mountpoints are (it never touches them) and whether or not
  a copy was ever started; the directory is gone afterwards, so a second call on the state
  a successful call leaves raises FileNotFoundError.
\<close>

theorem cleanup_needs_temp_directory:
  "(snd (cleanup E smp tmp temp dev st) = Return ()) = (temp \<in> dirs st \<and> rmtree_error E temp = None) \<and>
   (snd (cleanup E smp tmp temp dev st) = Return () \<longrightarrow>
      snd (cleanup E smp' tmp' temp dev' (fst (cleanup E smp tmp temp dev st))) =
        Raise (Exn FileNotFoundError temp))"
  by (auto simp add: cleanup_def and_then_def emit_def ret_def shutil_rmtree_def
      split: option.splits)

theorem cleanup_needs_temp_directory_witness:
  "(snd (cleanup env_ok ''S'' ''M'' ''T'' ''1'' (initial_state {''T''})) = Return ()) =
     (''T'' \<in> dirs (initial_state {''T''}) \<and> rmtree_error env_ok ''T'' = None) \<and>
   snd (cleanup env_ok ''S'' ''M'' ''T'' ''1'' (initial_state {''T''})) = Return () \<and>
   snd (cleanup env_ok ''S'' ''M'' ''T'' ''1''
          (fst (cleanup env_ok ''S'' ''M'' ''T'' ''1'' (initial_state {''T''})))) =
     Raise (Exn FileNotFoundError ''T'')"
proof -
  have ok: "snd (cleanup env_ok ''S'' ''M'' ''T'' ''1'' (initial_state {''T''})) = Return ()"
    by (simp add: monad_defs prim_defs core_defs env_ok_def)
  from cleanup_needs_temp_directory [of env_ok "''S''" "''M''" "''T''" "''1''" "initial_state {''T''}" "''S''" "''M''" "''1''"] ok
  show ?thesis by simp
qed

lemma stops_and_then:
  assumes m: "spec m (stops s x)" and k: "\<And>v. spec (k v) (stops s x)"
  shows "spec (and_then m k) (stops s x)"
proof (rule spec_and_then [OF m k])
  fix a v b and out :: "'b outcome"
  assume a: "stops s x a (Return v)" and b: "stops s x b out"
  from a have na: "s \<notin> set a" by (simp add: stops_def)
  from b show "stops s x (a @ b) out"
  proof (unfold stops_def, elim disjE exE conjE)
    assume "s \<notin> set b"
    with na show "s \<notin> set (a @ b) \<or> (\<exists>pre. a @ b = pre @ [s] \<and> s \<notin> set pre \<and> out = Raise x)"
      by simp
  next
    fix pre
    assume "b = pre @ [s]" "s \<notin> set pre" "out = Raise x"
    with na have "a @ b = (a @ pre) @ [s] \<and> s \<notin> set (a @ pre) \<and> out = Raise x" by simp
    then show "s \<notin> set (a @ b) \<or> (\<exists>pre. a @ b = pre @ [s] \<and> s \<notin> set pre \<and> out = Raise x)"
      by blast
  qed
qed (simp add: stops_def)

lemma stops_from_only: "spec m (only (\<lambda>e. e \<noteq> s)) \<Longrightarrow> spec m (stops s x)"
  by (erule spec_weaken) (auto simp: only_def stops_def list_all_iff)

lemma stops_check_kill_signal:
  "spec (check_kill_signal E) (stops (Kill_polled True) (Exn SystemExit []))"
  by (rule spec_check_kill_signal) (simp_all add: stops_def)

lemma stops_except_Exception:
  assumes m: "spec m (stops s x)" and x: "\<not> is_Exception x"
    and h: "\<And>e. spec (h e) (only (\<lambda>e. e \<noteq> s))"
  shows "spec (except_Exception m h) (stops s x)"
proof (rule spec_except_Exception [OF m h])
  fix a e b and out :: "'a outcome"
  assume "stops s x a (Raise e)" "is_Exception e" "only (\<lambda>e. e \<noteq> s) b out"
  with x show "stops s x (a @ b) out"
    by (auto simp: stops_def only_def list_all_iff)
qed

lemma stops_kill_copy_filesystem_files:
  "spec (copy_filesystem_files E smp tmp) (stops (Kill_polled True) (Exn SystemExit []))"
  unfolding copy_filesystem_files_def
  by (intro stops_and_then stops_check_kill_signal stops_from_only only_emit only_update only_copy_loop)
    simp_all

lemma stops_kill_install_uefi:
  "spec (install_uefi_ntfs_support_partition E part dl) (stops (Kill_polled True) (Exn SystemExit []))"
  unfolding install_uefi_ntfs_support_partition_def
  apply (intro stops_and_then stops_check_kill_signal)
    apply (rule stops_from_only, intro only_intros, simp)
   apply (rule stops_from_only, intro only_intros, simp)
  apply (rule stops_from_only, intro only_intros, simp_all)
  done

lemmas stops_leaf_intros =
  stops_from_only [OF only_ret] stops_from_only [OF only_raise] stops_from_only [OF only_emit]
  stops_from_only [OF only_print] stops_from_only [OF only_mount_source]
  stops_from_only [OF only_mount_target] stops_from_only [OF only_check_fat32_loop]
  stops_from_only [OF only_create_uefi]

lemma stops_kill_flash_device_body:
  "spec (flash_device_body E src dev fs label smp tmp temp) (stops (Kill_polled True) (Exn SystemExit []))"
  unfolding flash_device_body_def check_fat32_filesize_limitation_def
  by (intro stops_and_then spec_if stops_kill_copy_filesystem_files stops_kill_install_uefi
      stops_leaf_intros stops_from_only [OF only_format_target_device]
      stops_from_only [OF only_wipe] stops_from_only [OF only_create_target_partition_table]
      stops_from_only [OF only_create_target_partition]) simp_all

lemma stops_kill_flash_device_guarded:
  "spec (except_Exception (flash_device_body E src dev fs label smp tmp temp)
      (\<lambda>error. and_then (print_with_color E (Msg_error_text (str error)) Red) (\<lambda>_. ret (Some 1))))
     (stops (Kill_polled True) (Exn SystemExit []))"
  by (intro stops_except_Exception stops_kill_flash_device_body only_intros)
    (simp_all add: is_Exception_def)

lemma flash_device_without_session:
  "mkdtemp E = Inl e \<Longrightarrow>
   flash_device E src dev fs label st = (st\<lparr>trace := trace st @ [Called ''flash_device'']\<rparr>, Raise e)"
  by (simp add: flash_device_def Let_def and_then_def emit_def tempfile_mkdtemp_def)

lemma polls_at_entry_append:
  "polls_at_entry prev (a @ b) = (polls_at_entry prev a \<and> polls_at_entry (last (prev # a)) b)"
  by (induction a arbitrary: prev) auto

lemma polls_at_entry_no_poll: "list_all (\<lambda>e. \<not> is_poll e) evs \<Longrightarrow> polls_at_entry prev evs"
  by (induction evs arbitrary: prev) auto

lemma entry_polls_and_then:
  assumes m: "spec m entry_polls" and k: "\<And>v. spec (k v) entry_polls"
  shows "spec (and_then m k) entry_polls"
  by (rule spec_and_then [OF m k]) (simp_all add: entry_polls_def polls_at_entry_append)

lemma entry_polls_from_only: "spec m (only (\<lambda>e. \<not> is_poll e)) \<Longrightarrow> spec m entry_polls"
  by (erule spec_weaken) (simp add: only_def entry_polls_def polls_at_entry_no_poll)

lemma entry_then_poll:
  assumes f: "f = ''copy_filesystem_files'' \<or> f = ''install_uefi_ntfs_support_partition''"
    and k: "\<And>v. spec (k v) entry_polls"
  shows "spec (and_then (emit (Called f)) (\<lambda>_. and_then (check_kill_signal E) k)) entry_polls"
proof (rule spec_and_then [where R = "\<lambda>evs out. evs = [Called f]"
      and S = "\<lambda>_ evs out. polls_at_entry (Called f) evs"])
  show "spec (emit (Called f)) (\<lambda>evs out. evs = [Called f])"
    by (simp add: spec_emit)
  show "spec (and_then (check_kill_signal E) k) (\<lambda>evs out. polls_at_entry (Called f) evs)" for v :: unit
  proof (rule spec_and_then [where R = "\<lambda>evs out. polls_at_entry (Called f) evs \<and> length evs \<le> 1"
        and S = "\<lambda>_. entry_polls"])
    show "spec (check_kill_signal E) (\<lambda>evs out. polls_at_entry (Called f) evs \<and> length evs \<le> 1)"
      using f by (intro spec_check_kill_signal) auto
    show "spec (k v) entry_polls" for v by (rule k)
  qed (auto simp: entry_polls_def polls_at_entry_append)
qed (auto simp: entry_polls_def)

lemma entry_polls_copy_filesystem_files:
  "spec (copy_filesystem_files E smp tmp) entry_polls"
  unfolding copy_filesystem_files_def
  by (intro entry_then_poll entry_polls_and_then entry_polls_from_only [OF only_update]
      entry_polls_from_only [OF only_copy_loop]) simp_all

lemma entry_polls_install_uefi:
  "spec (install_uefi_ntfs_support_partition E part dl) entry_polls"
  unfolding install_uefi_ntfs_support_partition_def
  apply (rule entry_then_poll, simp)
  apply (rule entry_polls_from_only)
  apply (intro only_intros, simp_all)
  done

lemmas entry_polls_leaf_intros =
  entry_polls_from_only [OF only_ret] entry_polls_from_only [OF only_raise]
  entry_polls_from_only [OF only_emit] entry_polls_from_only [OF only_print]
  entry_polls_from_only [OF only_mount_source] entry_polls_from_only [OF only_mount_target]
  entry_polls_from_only [OF only_check_fat32_loop] entry_polls_from_only [OF only_create_uefi]
  entry_polls_from_only [OF only_format_target_device] entry_polls_from_only [OF only_wipe]
  entry_polls_from_only [OF only_create_target_partition_table]
  entry_polls_from_only [OF only_create_target_partition]

lemma entry_polls_flash_device_body:
  "spec (flash_device_body E src dev fs label smp tmp temp) entry_polls"
  unfolding flash_device_body_def check_fat32_filesize_limitation_def
  by (intro entry_polls_and_then spec_if entry_polls_copy_filesystem_files entry_polls_install_uefi
      entry_polls_leaf_intros) simp_all

lemma entry_polls_flash_device_guarded:
  "spec (except_Exception (flash_device_body E src dev fs label smp tmp temp)
      (\<lambda>error. and_then (print_with_color E (Msg_error_text (str error)) Red) (\<lambda>_. ret (Some 1))))
     entry_polls"
proof (rule spec_except_Exception [OF entry_polls_flash_device_body, where S = "\<lambda>e. entry_polls"])
  show "\<And>e. spec (and_then (print_with_color E (Msg_error_text (str e)) Red) (\<lambda>_. ret (Some 1))) entry_polls"
    by (intro entry_polls_and_then entry_polls_leaf_intros) simp_all
qed (simp_all add: entry_polls_def polls_at_entry_append)

lemma flash_device_polls_at_entry:
  "polls_at_entry prev (trace (fst (flash_device E src dev fs label (initial_state ds))))"
proof (cases "mkdtemp E")
  case (Inl e)
  then show ?thesis
    by (simp add: flash_device_without_session initial_state_def)
next
  case (Inr temp)
  from flash_device_decompose [OF Inr entry_polls_flash_device_guarded]
  obtain evs :: "event list" and out :: "int option outcome"
    where evs: "entry_polls evs out"
    and tr: "trace (fst (flash_device E src dev fs label (initial_state ds))) =
           trace (initial_state ds) @ [Called ''flash_device'', Mkdtemp temp] @ evs @ [Called ''cleanup'', Rmtree temp] @
           (case rmtree_error E temp of None \<Rightarrow> [Print Msg_flashing_completed Green] | Some e \<Rightarrow> [])"
    by blast
  from evs show ?thesis
    unfolding tr by (simp add: initial_state_def entry_polls_def polls_at_entry_append split: option.splits)
qed

lemma flash_device_cancelled:
  assumes seen: "Kill_polled True \<in> set (trace (fst (flash_device E src dev fs label (initial_state ds))))"
  shows "\<exists>pre temp. trace (fst (flash_device E src dev fs label (initial_state ds))) =
            pre @ [Kill_polled True, Called ''cleanup'', Rmtree temp] @
            (case rmtree_error E temp of None \<Rightarrow> [Print Msg_flashing_completed Green] | Some e \<Rightarrow> []) \<and>
          Kill_polled True \<notin> set pre \<and>
          snd (flash_device E src dev fs label (initial_state ds)) =
            Raise (case rmtree_error E temp of None \<Rightarrow> Exn SystemExit [] | Some e \<Rightarrow> e)"
proof (cases "mkdtemp E")
  case (Inl e)
  with seen show ?thesis
    by (simp add: flash_device_without_session initial_state_def)
next
  case (Inr temp)
  let ?r = "flash_device E src dev fs label (initial_state ds)"
  let ?post = "case rmtree_error E temp of None \<Rightarrow> [Print Msg_flashing_completed Green] | Some e \<Rightarrow> []"
  from flash_device_decompose [OF Inr stops_kill_flash_device_guarded]
  obtain evs :: "event list" and out :: "int option outcome"
    where evs: "stops (Kill_polled True) (Exn SystemExit []) evs out"
    and tr: "trace (fst ?r) =
           trace (initial_state ds) @ [Called ''flash_device'', Mkdtemp temp] @ evs @ [Called ''cleanup'', Rmtree temp] @ ?post"
    and res: "snd ?r = (case rmtree_error E temp of Some e \<Rightarrow> Raise e | None \<Rightarrow> out)"
    by blast
  from seen have "Kill_polled True \<in> set evs"
    unfolding tr by (simp add: initial_state_def split: option.splits)
  with evs obtain pre where pre: "evs = pre @ [Kill_polled True]" "Kill_polled True \<notin> set pre"
    "out = Raise (Exn SystemExit [])"
    unfolding stops_def by blast
  let ?pre = "[Called ''flash_device'', Mkdtemp temp] @ pre"
  have "trace (fst ?r) = ?pre @ [Kill_polled True, Called ''cleanup'', Rmtree temp] @ ?post"
    unfolding tr pre by (simp add: initial_state_def)
  moreover have "Kill_polled True \<notin> set ?pre" using pre by simp
  moreover have "snd ?r = Raise (case rmtree_error E temp of None \<Rightarrow> Exn SystemExit [] | Some e \<Rightarrow> e)"
    unfolding res pre by (simp split: option.splits)
  ultimately show ?thesis by blast
qed

text \<open>
  C6. The claim: the cancellation flag is checked at the start of every pipeline stage
  and once per file during the copy, and a set flag leads to a cancelled result. In the
  code, \<^verbatim>\<open>check_kill_signal\<close> is called in two places only. A cancellation asked for
  while the first file is copied is never seen: both files are copied and the run ends
  as a success. A flag that is set before the run starts is seen only when the copy is
  entered, after all four device stages have run.
\<close>

theorem cancel_during_copy_counterexample:
  "trace (fst (flash_device env_cancel_during_copy ''install.iso'' ''1'' ''FAT'' ''USB'' (initial_state {}))) ! 24
     = Kill_polled False \<and>
   gui_kill env_cancel_during_copy 25 \<and>
   length (filter is_copy
     (trace (fst (flash_device env_cancel_during_copy ''install.iso'' ''1'' ''FAT'' ''USB'' (initial_state {}))))) = 2 \<and>
   snd (flash_device env_cancel_during_copy ''install.iso'' ''1'' ''FAT'' ''USB'' (initial_state {})) = Return None \<and>
   device_commands
     (trace (fst (flash_device env_cancel_at_start ''install.iso'' ''1'' ''FAT'' ''USB'' (initial_state {})))) =
     [Get_Partition ''1'', Diskpart_clean ''1'', Diskpart_convert ''1'' ''mbr'',
      Diskpart_create_partition ''1'' ''FAT'' ''USB''] \<and>
   snd (flash_device env_cancel_at_start ''install.iso'' ''1'' ''FAT'' ''USB'' (initial_state {})) =
     Raise (Exn SystemExit [])"
  by (simp add: monad_defs prim_defs core_defs env_cancel_during_copy_def env_cancel_at_start_def
      env_ok_def)

text \<open>
  C3. The claim: a failure of a device-modification step is fatal for the whole
  operation and reaches the caller as a distinguishable error that names the sub-step;
  none is silently discarded. In the code, a diskpart run that ends with exit status 1 is
  not looked at: the run goes on through all four device stages and ends as a success.
  A step that raises (diskpart cannot be started) does stop the run, with the result 1
  and the exception text as the only error message, the same for the clean step and for
  the partition-table step.
\<close>

theorem device_modification_failure_counterexample:
  "snd (flash_device env_wipe_exit_1 ''install.iso'' ''1'' ''FAT'' ''USB'' (initial_state {})) = Return None \<and>
   device_commands (trace (fst (flash_device env_wipe_exit_1 ''install.iso'' ''1'' ''FAT'' ''USB'' (initial_state {})))) =
     [Get_Partition ''1'', Diskpart_clean ''1'', Diskpart_convert ''1'' ''mbr'',
      Diskpart_create_partition ''1'' ''FAT'' ''USB''] \<and>
   filter is_red (trace (fst (flash_device env_wipe_exit_1 ''install.iso'' ''1'' ''FAT'' ''USB'' (initial_state {})))) = [] \<and>
   snd (flash_device env_wipe_raises ''install.iso'' ''1'' ''FAT'' ''USB'' (initial_state {})) = Return (Some 1) \<and>
   snd (flash_device env_table_raises ''install.iso'' ''1'' ''FAT'' ''USB'' (initial_state {})) = Return (Some 1) \<and>
   filter is_red (trace (fst (flash_device env_wipe_raises ''install.iso'' ''1'' ''FAT'' ''USB'' (initial_state {})))) =
     [Print (Msg_error_text (str diskpart_missing)) Red] \<and>
   filter is_red (trace (fst (flash_device env_table_raises ''install.iso'' ''1'' ''FAT'' ''USB'' (initial_state {})))) =
     [Print (Msg_error_text (str diskpart_missing)) Red]"
  by (simp add: monad_defs prim_defs core_defs env_wipe_exit_1_def env_wipe_raises_def
      env_table_raises_def env_ok_def diskpart_missing_def)










lemma copy_loop_all_ok:
  "\<forall>p\<in>set ps. copy2_error E p (tmp @ replace smp [] p) = None \<Longrightarrow>
   copy_loop E smp tmp ps st =
     (st\<lparr>trace := trace st @ concat (map (copy_events smp tmp) ps),
         handle := (handle st)\<lparr>current_file := last (current_file (handle st) # ps)\<rparr>\<rparr>, Return ())"
proof (induction ps arbitrary: st)
  case Nil
  show ?case by (simp add: ret_def)
next
  case (Cons p ps)
  then show ?case
    by (simp add: and_then_def shutil_copy2_def emit_def ret_def copy_events_def)
qed

lemma copy_loop_fails:
  "\<forall>p\<in>set ok. copy2_error E p (tmp @ replace smp [] p) = None \<Longrightarrow>
   copy2_error E f (tmp @ replace smp [] f) = Some e \<Longrightarrow>
   copy_loop E smp tmp (ok @ f # rest) st =
     (st\<lparr>trace := trace st @ concat (map (copy_events smp tmp) (ok @ [f])),
         handle := (handle st)\<lparr>current_file := f\<rparr>\<rparr>, Raise e)"
proof (induction ok arbitrary: st)
  case Nil
  then show ?case
    by (simp add: and_then_def shutil_copy2_def emit_def raise_def copy_events_def)
next
  case (Cons p ok)
  then show ?case
    by (simp add: and_then_def shutil_copy2_def emit_def ret_def copy_events_def)
qed

lemma replace_absent: "old \<noteq> [] \<Longrightarrow> \<not> contains old s \<Longrightarrow> replace old new s = s"
proof (induction s)
  case Nil
  then show ?case by (simp add: replace.simps)
next
  case (Cons c s)
  then show ?case by (simp add: replace.simps [of old new "c # s"])
qed

lemma replace_leading: "smp \<noteq> [] \<Longrightarrow> \<not> contains smp rel \<Longrightarrow> replace smp [] (smp @ rel) = rel"
  by (simp add: replace.simps [of smp "[]" "smp @ rel"] replace_absent)

lemma filter_is_copy_events:
  "filter is_copy (concat (map (copy_events smp tmp) ps)) = map (\<lambda>p. Copy2 p (tmp @ replace smp [] p)) ps"
  by (induction ps) (simp_all add: copy_events_def)

lemma copy_filesystem_files_all_ok:
  assumes nokill: "gui E \<longrightarrow> \<not> gui_kill E (Suc (length (trace st)))"
    and ok: "\<forall>p\<in>set (walk_paths E smp). copy2_error E p (tmp @ replace smp [] p) = None"
  shows "copy_filesystem_files E smp tmp st =
     (st\<lparr>trace := trace st @ [Called ''copy_filesystem_files''] @
                 (if gui E then [Kill_polled False] else []) @ [Reporter_start smp tmp] @
                 concat (map (copy_events smp tmp) (walk_paths E smp)) @ [Reporter_stop],
         handle := \<lparr>started = True, stop = True, current_file = last ([] # walk_paths E smp)\<rparr>\<rparr>,
      Return ())"
  using nokill
  by (simp add: copy_filesystem_files_def and_then_def emit_def check_kill_signal_def ret_def
      Let_def copy_loop_all_ok [OF ok])

lemma copy_filesystem_files_fails:
  assumes nokill: "gui E \<longrightarrow> \<not> gui_kill E (Suc (length (trace st)))"
    and paths: "walk_paths E smp = ok @ f # rest"
    and ok: "\<forall>p\<in>set ok. copy2_error E p (tmp @ replace smp [] p) = None"
    and f: "copy2_error E f (tmp @ replace smp [] f) = Some e"
  shows "copy_filesystem_files E smp tmp st =
     (st\<lparr>trace := trace st @ [Called ''copy_filesystem_files''] @
                 (if gui E then [Kill_polled False] else []) @ [Reporter_start smp tmp] @
                 concat (map (copy_events smp tmp) (ok @ [f])),
         handle := \<lparr>started = True, stop = False, current_file = f\<rparr>\<rparr>,
      Raise e)"
  using nokill
  by (simp add: copy_filesystem_files_def and_then_def emit_def check_kill_signal_def ret_def
      Let_def paths copy_loop_fails [OF ok f])

text \<open>
  C7. The claim: \<^verbatim>\<open>copy_filesystem_files\<close> copies every file to the target path that
  keeps its relative path, and a failure on a file aborts the copy with an error that
  carries the failing path. In the code the exception of \<^verbatim>\<open>shutil.copy2\<close> leaves the
  function as it is: when the disk is full at the second file, the error is "No space
  left on device", without a path. And the target path is made with
  \<^verbatim>\<open>path.replace(source_fs_mountpoint, "")\<close>, which removes the text of the mountpoint
  wherever it occurs: under the mountpoint \<open>a\<close> the file \<open>a\ba\x\<close> is copied to
  \<open>T\b\x\<close>.
\<close>

theorem copy_error_without_path_counterexample:
  "snd (copy_filesystem_files env_disk_full ''S'' ''T'' (initial_state {})) = Raise disk_full \<and>
   \<not> contains (''S'' @ [sep] @ ''b'') (str disk_full) \<and>
   filter is_copy (trace (fst (copy_filesystem_files env_nested ''a'' ''T'' (initial_state {})))) =
     [Copy2 (''a'' @ [sep] @ ''ba'' @ [sep] @ ''x'') (''T'' @ [sep] @ ''b'' @ [sep] @ ''x'')]"
  by (simp add: monad_defs prim_defs core_defs env_disk_full_def env_nested_def env_ok_def
      disk_full_def sep_def replace.simps)

text \<open>
  C7, amended. When no cancellation is seen at its start, \<^verbatim>\<open>copy_filesystem_files\<close>
  goes through the files that \<^verbatim>\<open>os.walk\<close> lists under the source mountpoint, in that
  order, and copies each with \<^verbatim>\<open>shutil.copy2\<close> (contents and timestamps) to the target
  mountpoint followed by the file's path without the text of the source mountpoint. If
  every copy succeeds, every file has been copied and the progress thread is told to
  stop. The first copy that raises aborts the whole copy: no later file is tried, the
  exception leaves the function unchanged, and the failing path is what the progress
  thread holds as its current file (its stop flag is not set). Where the text of the
  mountpoint occurs in a path only as its leading part, the target is the target
  mountpoint followed by the relative path.
\<close>

theorem copy_filesystem_files_copies:
  assumes nokill: "gui E \<longrightarrow> \<not> gui_kill E (Suc (length (trace st)))"
  shows "((\<forall>p\<in>set (walk_paths E smp). copy2_error E p (tmp @ replace smp [] p) = None) \<longrightarrow>
            snd (copy_filesystem_files E smp tmp st) = Return () \<and>
            filter is_copy (drop (length (trace st)) (trace (fst (copy_filesystem_files E smp tmp st)))) =
              map (\<lambda>p. Copy2 p (tmp @ replace smp [] p)) (walk_paths E smp) \<and>
            stop (handle (fst (copy_filesystem_files E smp tmp st)))) \<and>
         (\<forall>ok f rest e.
            walk_paths E smp = ok @ f # rest \<and>
            (\<forall>p\<in>set ok. copy2_error E p (tmp @ replace smp [] p) = None) \<and>
            copy2_error E f (tmp @ replace smp [] f) = Some e \<longrightarrow>
            snd (copy_filesystem_files E smp tmp st) = Raise e \<and>
            filter is_copy (drop (length (trace st)) (trace (fst (copy_filesystem_files E smp tmp st)))) =
              map (\<lambda>p. Copy2 p (tmp @ replace smp [] p)) (ok @ [f]) \<and>
            current_file (handle (fst (copy_filesystem_files E smp tmp st))) = f \<and>
            \<not> stop (handle (fst (copy_filesystem_files E smp tmp st)))) \<and>
         (\<forall>rel. smp \<noteq> [] \<and> \<not> contains smp rel \<longrightarrow> tmp @ replace smp [] (smp @ rel) = tmp @ rel)"
proof (intro conjI impI allI)
  assume ok: "\<forall>p\<in>set (walk_paths E smp). copy2_error E p (tmp @ replace smp [] p) = None"
  note eq = copy_filesystem_files_all_ok [OF nokill ok]
  show "snd (copy_filesystem_files E smp tmp st) = Return ()"
    by (simp add: eq)
  show "filter is_copy (drop (length (trace st)) (trace (fst (copy_filesystem_files E smp tmp st)))) =
          map (\<lambda>p. Copy2 p (tmp @ replace smp [] p)) (walk_paths E smp)"
    by (simp add: eq filter_is_copy_events)
  show "stop (handle (fst (copy_filesystem_files E smp tmp st)))"
    by (simp add: eq)
next
  fix ok f rest e
  assume a: "walk_paths E smp = ok @ f # rest \<and>
            (\<forall>p\<in>set ok. copy2_error E p (tmp @ replace smp [] p) = None) \<and>
            copy2_error E f (tmp @ replace smp [] f) = Some e"
  then have paths: "walk_paths E smp = ok @ f # rest"
    and ok: "\<forall>p\<in>set ok. copy2_error E p (tmp @ replace smp [] p) = None"
    and f: "copy2_error E f (tmp @ replace smp [] f) = Some e"
    by simp_all
  note eq = copy_filesystem_files_fails [OF nokill paths ok f]
  show "snd (copy_filesystem_files E smp tmp st) = Raise e"
    by (simp add: eq)
  show "filter is_copy (drop (length (trace st)) (trace (fst (copy_filesystem_files E smp tmp st)))) =
          map (\<lambda>p. Copy2 p (tmp @ replace smp [] p)) (ok @ [f])"
    using filter_is_copy_events [of smp tmp "ok @ [f]"] by (simp add: eq)
  show "current_file (handle (fst (copy_filesystem_files E smp tmp st))) = f"
    by (simp add: eq)
  show "\<not> stop (handle (fst (copy_filesystem_files E smp tmp st)))"
    by (simp add: eq)
next
  fix rel
  assume "smp \<noteq> [] \<and> \<not> contains smp rel"
  then show "tmp @ replace smp [] (smp @ rel) = tmp @ rel"
    by (simp add: replace_leading)
qed

theorem copy_filesystem_files_copies_witness:
  "\<not> gui env_disk_full \<and>
   walk_paths env_disk_full ''S'' = [''S'' @ [sep] @ ''a''] @ (''S'' @ [sep] @ ''b'') # [] \<and>
   copy2_error env_disk_full (''S'' @ [sep] @ ''a'') (''T'' @ replace ''S'' [] (''S'' @ [sep] @ ''a'')) = None \<and>
   copy2_error env_disk_full (''S'' @ [sep] @ ''b'') (''T'' @ replace ''S'' [] (''S'' @ [sep] @ ''b'')) = Some disk_full \<and>
   snd (copy_filesystem_files env_disk_full ''S'' ''T'' (initial_state {})) = Raise disk_full \<and>
   filter is_copy (drop (length (trace (initial_state {})))
       (trace (fst (copy_filesystem_files env_disk_full ''S'' ''T'' (initial_state {}))))) =
     map (\<lambda>p. Copy2 p (''T'' @ replace ''S'' [] p)) ([''S'' @ [sep] @ ''a''] @ [''S'' @ [sep] @ ''b'']) \<and>
   current_file (handle (fst (copy_filesystem_files env_disk_full ''S'' ''T'' (initial_state {})))) = ''S'' @ [sep] @ ''b'' \<and>
   \<not> stop (handle (fst (copy_filesystem_files env_disk_full ''S'' ''T'' (initial_state {})))) \<and>
   \<not> gui env_ok \<and>
   snd (copy_filesystem_files env_ok ''S'' ''T'' (initial_state {})) = Return () \<and>
   filter is_copy (drop (length (trace (initial_state {})))
       (trace (fst (copy_filesystem_files env_ok ''S'' ''T'' (initial_state {}))))) =
     map (\<lambda>p. Copy2 p (''T'' @ replace ''S'' [] p)) (walk_paths env_ok ''S'') \<and>
   stop (handle (fst (copy_filesystem_files env_ok ''S'' ''T'' (initial_state {})))) \<and>
   ''S'' \<noteq> [] \<and> \<not> contains ''S'' ([sep] @ ''a'') \<and>
   ''T'' @ replace ''S'' [] (''S'' @ [sep] @ ''a'') = ''T'' @ [sep] @ ''a''"
proof -
  have nogui: "\<not> gui env_disk_full" "\<not> gui env_ok"
    by (simp_all add: env_disk_full_def env_ok_def)
  have paths: "walk_paths env_disk_full ''S'' = [''S'' @ [sep] @ ''a''] @ (''S'' @ [sep] @ ''b'') # []"
    by (simp add: walk_paths_def env_disk_full_def env_ok_def join_backslash_def)
  have a: "copy2_error env_disk_full (''S'' @ [sep] @ ''a'') (''T'' @ replace ''S'' [] (''S'' @ [sep] @ ''a'')) = None"
    and b: "copy2_error env_disk_full (''S'' @ [sep] @ ''b'') (''T'' @ replace ''S'' [] (''S'' @ [sep] @ ''b'')) = Some disk_full"
    by (simp_all add: env_disk_full_def env_ok_def)
  have all_ok: "\<forall>p\<in>set (walk_paths env_ok ''S''). copy2_error env_ok p (''T'' @ replace ''S'' [] p) = None"
    by (simp add: env_ok_def)
  have rel: "''S'' \<noteq> [] \<and> \<not> contains ''S'' ([sep] @ ''a'')"
    by (simp add: sep_def)
  have full: "gui env_disk_full \<longrightarrow> \<not> gui_kill env_disk_full (Suc (length (trace (initial_state {}))))"
    and fine: "gui env_ok \<longrightarrow> \<not> gui_kill env_ok (Suc (length (trace (initial_state {}))))"
    using nogui by simp_all
  from copy_filesystem_files_copies [OF full, of "''S''" "''T''"] paths a b
  have failing: "snd (copy_filesystem_files env_disk_full ''S'' ''T'' (initial_state {})) = Raise disk_full \<and>
     filter is_copy (drop (length (trace (initial_state {})))
       (trace (fst (copy_filesystem_files env_disk_full ''S'' ''T'' (initial_state {}))))) =
     map (\<lambda>p. Copy2 p (''T'' @ replace ''S'' [] p)) ([''S'' @ [sep] @ ''a''] @ [''S'' @ [sep] @ ''b'']) \<and>
     current_file (handle (fst (copy_filesystem_files env_disk_full ''S'' ''T'' (initial_state {})))) = ''S'' @ [sep] @ ''b'' \<and>
     \<not> stop (handle (fst (copy_filesystem_files env_disk_full ''S'' ''T'' (initial_state {}))))"
    by (elim conjE allE [of _ "[''S'' @ [sep] @ ''a'']"] allE [of _ "''S'' @ [sep] @ ''b''"]
        allE [of _ "[]"] allE [of _ disk_full]) simp
  from copy_filesystem_files_copies [OF fine, of "''S''" "''T''"] all_ok
  have succeeding: "snd (copy_filesystem_files env_ok ''S'' ''T'' (initial_state {})) = Return () \<and>
     filter is_copy (drop (length (trace (initial_state {})))
       (trace (fst (copy_filesystem_files env_ok ''S'' ''T'' (initial_state {}))))) =
     map (\<lambda>p. Copy2 p (''T'' @ replace ''S'' [] p)) (walk_paths env_ok ''S'') \<and>
     stop (handle (fst (copy_filesystem_files env_ok ''S'' ''T'' (initial_state {}))))"
    by blast
  from copy_filesystem_files_copies [OF fine, of "''S''" "''T''"] rel
  have relative: "''T'' @ replace ''S'' [] (''S'' @ [sep] @ ''a'') = ''T'' @ [sep] @ ''a''"
    by (elim conjE allE [of _ "[sep] @ ''a''"]) simp
  from nogui paths a b failing succeeding rel relative show ?thesis by blast
qed

subsection \<open>The device commands of a complete run\<close>

lemma completes_quiet: "spec m (only quiet) \<Longrightarrow> spec m (completes [])"
  by (erule spec_weaken) (simp add: only_def completes_def device_commands_quiet)

lemma issues_then_completes:
  assumes m: "spec m (issues [c])" and k: "\<And>v. spec (k v) (completes L)"
  shows "spec (and_then m k) (completes (c # L))"
  by (rule spec_and_then [OF m k])
    (auto simp: issues_def completes_def device_commands_append prefix_single_extend)

lemma format_then_sequenced:
  assumes k: "\<And>v. spec (k v)
      (completes [Diskpart_clean dev, Diskpart_convert dev ''mbr'', Diskpart_create_partition dev t label])"
  shows "spec (and_then (format_target_device E dev t) k) (sequenced dev t label)"
proof (rule spec_and_then [OF format_target_device_issues k])
  fix a e
  assume "issues [Get_Partition dev] a (Raise e) \<or>
    issues [Get_Partition dev, Diskpart_create_partition dev t DEFAULT_NEW_FS_LABEL] a (Raise e)"
  then show "sequenced dev t label a (Raise e)"
    by (auto simp: issues_def sequenced_def completes_def stages_partitioned_def stages_blank_def
        prefix_Cons)
next
  fix a v b and out :: "int option outcome"
  assume "issues [Get_Partition dev] a (Return v) \<or>
    issues [Get_Partition dev, Diskpart_create_partition dev t DEFAULT_NEW_FS_LABEL] a (Return v)"
    and "completes [Diskpart_clean dev, Diskpart_convert dev ''mbr'', Diskpart_create_partition dev t label] b out"
  then show "sequenced dev t label (a @ b) out"
    by (auto simp: issues_def sequenced_def completes_def stages_partitioned_def stages_blank_def
        device_commands_append)
qed

lemma sequenced_early_return:
  "spec (and_then (print_with_color E m c) (\<lambda>_. ret (Some 1))) (sequenced dev t label)"
  by (simp add: spec_def print_with_color_def and_then_def emit_def ret_def raise_def
      sequenced_def completes_def)

lemma quiet_then_sequenced:
  assumes m: "spec m (only quiet)" and k: "\<And>v. spec (k v) (sequenced dev t label)"
  shows "spec (and_then m k) (sequenced dev t label)"
  by (rule spec_and_then [OF m k])
    (auto simp: only_def sequenced_def completes_def device_commands_append device_commands_quiet)

lemma resolve_result:
  assumes getsize: "\<And>q. p (Getsize q)" and warn: "\<And>q. p (Print (Warn_fat32_limit q) Yellow)"
  shows "spec (if fs = ''FAT'' then
               and_then (check_fat32_filesize_limitation E smp) (\<lambda>r.
               ret (if r \<noteq> 0 then ''NTFS'' else fs))
             else ret fs)
          (\<lambda>evs (out :: string outcome). list_all p evs \<and>
             (\<forall>v. out = Return v \<longrightarrow>
                v = (if fs = ''FAT'' \<and> list_ex (oversized E) (walk_paths E smp) then ''NTFS'' else fs)))"
    (is "spec _ ?R")
proof (cases "fs = ''FAT''")
  case False
  then show ?thesis by (simp add: spec_ret)
next
  case True
  have check: "spec (check_fat32_filesize_limitation E smp)
      (\<lambda>evs out. only p evs out \<and> (\<forall>r. out = Return r \<longrightarrow> (r \<noteq> 0) = list_ex (oversized E) (walk_paths E smp)))"
    unfolding check_fat32_filesize_limitation_def
    by (rule spec_conj_result [OF only_check_fat32_loop [OF getsize warn]])
      (simp add: check_fat32_loop_result)
  have "spec (and_then (check_fat32_filesize_limitation E smp) (\<lambda>r. ret (if r \<noteq> 0 then ''NTFS'' else fs))) ?R"
    by (rule spec_and_then [OF check, where S = "\<lambda>r evs out. evs = [] \<and> out = Return (if r \<noteq> 0 then ''NTFS'' else fs)"])
      (auto simp: spec_ret only_def True)
  with True show ?thesis by simp
qed

lemma resolve_then_sequenced:
  assumes k: "spec (k (if fs = ''FAT'' \<and> list_ex (oversized E) (walk_paths E smp) then ''NTFS'' else fs))
                (sequenced dev t label)"
  shows "spec (and_then
            (if fs = ''FAT'' then
               and_then (check_fat32_filesize_limitation E smp) (\<lambda>r.
               ret (if r \<noteq> 0 then ''NTFS'' else fs))
             else ret fs) k) (sequenced dev t label)"
  by (rule spec_and_then [OF resolve_result [where p = quiet], where S = "\<lambda>v. sequenced dev t label"])
    (use k in \<open>auto simp: quiet_def sequenced_def completes_def device_commands_append device_commands_quiet\<close>)

lemma sequenced_flash_device_body:
  "spec (flash_device_body E src dev fs label smp tmp temp)
     (sequenced dev (if fs = ''FAT'' \<and> list_ex (oversized E) (walk_paths E smp) then ''NTFS'' else fs) label)"
  unfolding flash_device_body_def
  apply (rule spec_if)
  subgoal by (rule sequenced_early_return)
  apply (rule quiet_then_sequenced)
  subgoal by (rule only_mount_source) (simp_all add: quiet_def)
  apply (rule spec_if)
  subgoal by (rule sequenced_early_return)
  apply (rule resolve_then_sequenced)
  apply (rule format_then_sequenced)
  apply (rule issues_then_completes [OF issues_wipe])
  apply (rule issues_then_completes [OF issues_create_target_partition_table])
  apply (rule issues_then_completes [OF issues_create_target_partition])
  apply (rule completes_quiet)
  apply (intro only_and_then_mount_target only_intros only_copy_filesystem_files only_create_uefi
      only_install_uefi; simp add: quiet_def)
  done

lemma sequenced_flash_device_guarded:
  "spec (except_Exception (flash_device_body E src dev fs label smp tmp temp)
      (\<lambda>error. and_then (print_with_color E (Msg_error_text (str error)) Red) (\<lambda>_. ret (Some 1))))
     (sequenced dev (if fs = ''FAT'' \<and> list_ex (oversized E) (walk_paths E smp) then ''NTFS'' else fs) label)"
proof (rule spec_except_Exception [OF sequenced_flash_device_body,
      where S = "\<lambda>e evs out. list_all quiet evs \<and> out \<noteq> Return None"])
  show "\<And>e. spec (and_then (print_with_color E (Msg_error_text (str e)) Red) (\<lambda>_. ret (Some 1)))
      (\<lambda>evs out. list_all quiet evs \<and> out \<noteq> Return None)"
    by (simp add: spec_def print_with_color_def and_then_def emit_def ret_def raise_def quiet_def)
qed (auto simp: sequenced_def completes_def device_commands_append device_commands_quiet)


lemma flash_device_commands:
  "sequenced dev
     (if fs = ''FAT'' \<and> list_ex (oversized E) (walk_paths E (os_path_join E media_source_prefix (stamp_source E)))
      then ''NTFS'' else fs) label
     (trace (fst (flash_device E src dev fs label (initial_state ds))))
     (snd (flash_device E src dev fs label (initial_state ds)))"
proof (cases "mkdtemp E")
  case (Inl e)
  then show ?thesis
    by (simp add: flash_device_def Let_def and_then_def emit_def tempfile_mkdtemp_def initial_state_def
        sequenced_def completes_def)
next
  case (Inr temp)
  let ?t = "if fs = ''FAT'' \<and> list_ex (oversized E) (walk_paths E (os_path_join E media_source_prefix (stamp_source E)))
      then ''NTFS'' else fs"
  from flash_device_decompose [OF Inr sequenced_flash_device_guarded]
  obtain evs :: "event list" and out :: "int option outcome" where evs: "sequenced dev ?t label evs out"
    and tr: "trace (fst (flash_device E src dev fs label (initial_state ds))) =
           trace (initial_state ds) @ [Called ''flash_device'', Mkdtemp temp] @ evs @ [Called ''cleanup'', Rmtree temp] @
           (case rmtree_error E temp of None \<Rightarrow> [Print Msg_flashing_completed Green] | Some e \<Rightarrow> [])"
    and out: "snd (flash_device E src dev fs label (initial_state ds)) =
           (case rmtree_error E temp of Some e \<Rightarrow> Raise e | None \<Rightarrow> out)"
    by blast
  have "device_commands (trace (fst (flash_device E src dev fs label (initial_state ds)))) = device_commands evs"
    unfolding tr by (simp add: device_commands_append initial_state_def split: option.splits)
  with evs out show ?thesis
    by (auto simp: sequenced_def completes_def split: option.splits)
qed

text \<open>
  C5. In every run of \<^verbatim>\<open>flash_device\<close>, whatever the environment answers and
  wherever the run stops, the commands against the target device are an initial part of
  one fixed sequence: look for existing partitions (and create one with the default label
  when none is found), then clean the disk, then write a fresh MBR partition table, then
  create and format the data partition. No run issues them in another order. A run in
  which no step raises and no check returns early (the result is \<open>None\<close>) has issued the
  whole sequence: all four stages ran, in this order, each once.
\<close>

theorem flash_device_order:
  "\<exists>t. (prefix (device_commands (trace (fst (flash_device E src dev fs label (initial_state ds)))))
            (stages_partitioned dev t label) \<or>
        prefix (device_commands (trace (fst (flash_device E src dev fs label (initial_state ds)))))
            (stages_blank dev t label)) \<and>
       (snd (flash_device E src dev fs label (initial_state ds)) = Return None \<longrightarrow>
          device_commands (trace (fst (flash_device E src dev fs label (initial_state ds)))) =
            stages_partitioned dev t label \<or>
          device_commands (trace (fst (flash_device E src dev fs label (initial_state ds)))) =
            stages_blank dev t label)"
  using flash_device_commands [of dev fs E label src ds]
  unfolding sequenced_def completes_def by blast

theorem flash_device_order_witness:
  "snd (flash_device env_ok ''install.iso'' ''1'' ''FAT'' ''USB'' (initial_state {})) = Return None \<and>
   device_commands (trace (fst (flash_device env_ok ''install.iso'' ''1'' ''FAT'' ''USB'' (initial_state {})))) =
     [Get_Partition ''1'', Diskpart_clean ''1'', Diskpart_convert ''1'' ''mbr'',
      Diskpart_create_partition ''1'' ''FAT'' ''USB''] \<and>
   snd (flash_device env_blank ''install.iso'' ''1'' ''FAT'' ''USB'' (initial_state {})) = Return None \<and>
   device_commands (trace (fst (flash_device env_blank ''install.iso'' ''1'' ''FAT'' ''USB'' (initial_state {})))) =
     [Get_Partition ''1'', Diskpart_create_partition ''1'' ''FAT'' ''USB'',
      Diskpart_clean ''1'', Diskpart_convert ''1'' ''mbr'',
      Diskpart_create_partition ''1'' ''FAT'' ''USB'']"
proof -
  have ok: "snd (flash_device env_ok ''install.iso'' ''1'' ''FAT'' ''USB'' (initial_state {})) = Return None"
    by (simp add: monad_defs prim_defs core_defs env_ok_def)
  have blank: "snd (flash_device env_blank ''install.iso'' ''1'' ''FAT'' ''USB'' (initial_state {})) = Return None"
    by (simp add: monad_defs prim_defs core_defs env_blank_def env_ok_def)
  have n_ok: "length (device_commands (trace (fst (flash_device env_ok ''install.iso'' ''1'' ''FAT'' ''USB'' (initial_state {}))))) = 4"
    by (simp add: monad_defs prim_defs core_defs env_ok_def)
  have n_blank: "length (device_commands (trace (fst (flash_device env_blank ''install.iso'' ''1'' ''FAT'' ''USB'' (initial_state {}))))) = 5"
    by (simp add: monad_defs prim_defs core_defs env_blank_def env_ok_def)
  have last_ok: "last (device_commands (trace (fst (flash_device env_ok ''install.iso'' ''1'' ''FAT'' ''USB'' (initial_state {}))))) =
      Diskpart_create_partition ''1'' ''FAT'' ''USB''"
    by (simp add: monad_defs prim_defs core_defs env_ok_def)
  have last_blank: "last (device_commands (trace (fst (flash_device env_blank ''install.iso'' ''1'' ''FAT'' ''USB'' (initial_state {}))))) =
      Diskpart_create_partition ''1'' ''FAT'' ''USB''"
    by (simp add: monad_defs prim_defs core_defs env_blank_def env_ok_def)
  from flash_device_order [of env_ok "''install.iso''" "''1''" "''FAT''" "''USB''" "{}"] ok n_ok last_ok
  have 1: "device_commands (trace (fst (flash_device env_ok ''install.iso'' ''1'' ''FAT'' ''USB'' (initial_state {})))) =
     [Get_Partition ''1'', Diskpart_clean ''1'', Diskpart_convert ''1'' ''mbr'',
      Diskpart_create_partition ''1'' ''FAT'' ''USB'']"
    by (auto simp: stages_partitioned_def stages_blank_def)
  from flash_device_order [of env_blank "''install.iso''" "''1''" "''FAT''" "''USB''" "{}"] blank n_blank last_blank
  have 2: "device_commands (trace (fst (flash_device env_blank ''install.iso'' ''1'' ''FAT'' ''USB'' (initial_state {})))) =
     [Get_Partition ''1'', Diskpart_create_partition ''1'' ''FAT'' ''USB'',
      Diskpart_clean ''1'', Diskpart_convert ''1'' ''mbr'',
      Diskpart_create_partition ''1'' ''FAT'' ''USB'']"
    by (auto simp: stages_partitioned_def stages_blank_def DEFAULT_NEW_FS_LABEL_def)
  from ok blank 1 2 show ?thesis by simp
qed




subsection \<open>Both entries poll the flag\<close>

lemma entries_polled_append:
  "entries_polled a \<Longrightarrow> entries_polled b \<Longrightarrow> entries_polled (a @ b)"
  by (induction a) (auto split: list.splits)

lemma entries_polled_no_entry: "list_all (\<lambda>e. \<not> is_entry e) evs \<Longrightarrow> entries_polled evs"
  by (induction evs) auto

lemma entry_polled_and_then:
  assumes m: "spec m entry_polled" and k: "\<And>v. spec (k v) entry_polled"
  shows "spec (and_then m k) entry_polled"
  by (rule spec_and_then [OF m k]) (simp_all add: entry_polled_def entries_polled_append)

lemma entry_polled_from_only: "spec m (only (\<lambda>e. \<not> is_entry e)) \<Longrightarrow> spec m entry_polled"
  by (erule spec_weaken) (simp add: only_def entry_polled_def entries_polled_no_entry)

lemma entry_then_polled:
  assumes gui: "gui E" and k: "\<And>v. spec (k v) entry_polled"
  shows "spec (and_then (emit (Called f)) (\<lambda>_. and_then (check_kill_signal E) k)) entry_polled"
proof (rule spec_and_then [where R = "\<lambda>evs out. evs = [Called f] \<and> out = Return ()"
      and S = "\<lambda>_ evs out. entries_polled (Called f # evs)"])
  show "spec (emit (Called f)) (\<lambda>evs out. evs = [Called f] \<and> out = Return ())"
    by (simp add: spec_emit)
  show "spec (and_then (check_kill_signal E) k) (\<lambda>evs out. entries_polled (Called f # evs))" for v :: unit
  proof (rule spec_and_then [where R = "\<lambda>evs out. \<exists>b. evs = [Kill_polled b]"
        and S = "\<lambda>_. entry_polled"])
    show "spec (check_kill_signal E) (\<lambda>evs out. \<exists>b. evs = [Kill_polled b])"
      using gui by (intro spec_check_kill_signal) auto
    show "spec (k v) entry_polled" for v by (rule k)
  qed (auto simp: entry_polled_def is_entry_def)
qed (auto simp: entry_polled_def)

lemma entry_polled_copy_filesystem_files:
  "gui E \<Longrightarrow> spec (copy_filesystem_files E smp tmp) entry_polled"
  unfolding copy_filesystem_files_def
  by (intro entry_then_polled entry_polled_and_then entry_polled_from_only [OF only_update]
      entry_polled_from_only [OF only_copy_loop]) (simp_all add: is_entry_def)

lemma entry_polled_install_uefi:
  "gui E \<Longrightarrow> spec (install_uefi_ntfs_support_partition E part dl) entry_polled"
  unfolding install_uefi_ntfs_support_partition_def
  apply (rule entry_then_polled, simp)
  apply (rule entry_polled_from_only)
  apply (intro only_intros, simp_all add: is_entry_def)
  done

lemmas entry_polled_leaf_intros =
  entry_polled_from_only [OF only_ret] entry_polled_from_only [OF only_raise]
  entry_polled_from_only [OF only_emit] entry_polled_from_only [OF only_print]
  entry_polled_from_only [OF only_mount_source] entry_polled_from_only [OF only_mount_target]
  entry_polled_from_only [OF only_check_fat32_loop] entry_polled_from_only [OF only_create_uefi]
  entry_polled_from_only [OF only_format_target_device] entry_polled_from_only [OF only_wipe]
  entry_polled_from_only [OF only_create_target_partition_table]
  entry_polled_from_only [OF only_create_target_partition]

lemma entry_polled_flash_device_body:
  "gui E \<Longrightarrow> spec (flash_device_body E src dev fs label smp tmp temp) entry_polled"
  unfolding flash_device_body_def check_fat32_filesize_limitation_def
  by (intro entry_polled_and_then spec_if entry_polled_copy_filesystem_files entry_polled_install_uefi
      entry_polled_leaf_intros) (simp_all add: is_entry_def)

lemma entry_polled_flash_device_guarded:
  assumes gui: "gui E"
  shows "spec (except_Exception (flash_device_body E src dev fs label smp tmp temp)
      (\<lambda>error. and_then (print_with_color E (Msg_error_text (str error)) Red) (\<lambda>_. ret (Some 1))))
     entry_polled"
proof (rule spec_except_Exception [OF entry_polled_flash_device_body [OF gui], where S = "\<lambda>e. entry_polled"])
  show "\<And>e. spec (and_then (print_with_color E (Msg_error_text (str e)) Red) (\<lambda>_. ret (Some 1))) entry_polled"
    by (intro entry_polled_and_then entry_polled_leaf_intros) (simp_all add: is_entry_def)
qed (simp_all add: entry_polled_def entries_polled_append)

lemma flash_device_entries_polled:
  assumes gui: "gui E"
  shows "entries_polled (trace (fst (flash_device E src dev fs label (initial_state ds))))"
proof (cases "mkdtemp E")
  case (Inl e)
  then show ?thesis
    by (simp add: flash_device_without_session initial_state_def is_entry_def)
next
  case (Inr temp)
  from flash_device_decompose [OF Inr entry_polled_flash_device_guarded [OF gui]]
  obtain evs :: "event list" and out :: "int option outcome"
    where evs: "entry_polled evs out"
    and tr: "trace (fst (flash_device E src dev fs label (initial_state ds))) =
           trace (initial_state ds) @ [Called ''flash_device'', Mkdtemp temp] @ evs @ [Called ''cleanup'', Rmtree temp] @
           (case rmtree_error E temp of None \<Rightarrow> [Print Msg_flashing_completed Green] | Some e \<Rightarrow> [])"
    by blast
  have "entries_polled ([Called ''cleanup'', Rmtree temp] @
           (case rmtree_error E temp of None \<Rightarrow> [Print Msg_flashing_completed Green] | Some e \<Rightarrow> []))"
    by (simp add: is_entry_def split: option.splits)
  with evs have "entries_polled (evs @ [Called ''cleanup'', Rmtree temp] @
           (case rmtree_error E temp of None \<Rightarrow> [Print Msg_flashing_completed Green] | Some e \<Rightarrow> []))"
    unfolding entry_polled_def by (rule entries_polled_append)
  then show ?thesis
    unfolding tr by (simp add: initial_state_def is_entry_def)
qed

lemma flash_device_reporter_stopped:
  "started (handle (fst (flash_device E src dev fs label (initial_state ds)))) \<Longrightarrow>
   stop (handle (fst (flash_device E src dev fs label (initial_state ds))))"
proof (cases "mkdtemp E")
  case (Inl e)
  assume "started (handle (fst (flash_device E src dev fs label (initial_state ds))))"
  with Inl show ?thesis
    by (simp add: flash_device_without_session initial_state_def)
next
  case (Inr temp)
  assume s: "started (handle (fst (flash_device E src dev fs label (initial_state ds))))"
  let ?G = "except_Exception
              (flash_device_body E src dev fs label
                 (os_path_join E media_source_prefix (stamp_source E))
                 (os_path_join E media_target_prefix (stamp_target E)) temp)
              (\<lambda>error. and_then (print_with_color E (Msg_error_text (str error)) Red) (\<lambda>_. ret (Some 1)))"
  let ?st1 = "(initial_state ds)\<lparr>trace := trace (initial_state ds) @ [Called ''flash_device''] @ [Mkdtemp temp],
      dirs := insert temp (dirs (initial_state ds))\<rparr>"
  obtain st2 out where G: "?G ?st1 = (st2, out)" by (cases "?G ?st1")
  with Inr s show ?thesis
    by (auto simp add: flash_device_def Let_def and_then_def emit_def tempfile_mkdtemp_def try_finally_def
        cleanup_def shutil_rmtree_def print_with_color_def ret_def raise_def is_alive_def
        split: option.splits if_splits prod.splits outcome.splits)
qed

text \<open>
  C6, amended. The flag is polled, with a GUI attached, directly after every entry of
  \<^verbatim>\<open>copy_filesystem_files\<close> (before the progress thread is started and before the first
  file) and of \<^verbatim>\<open>install_uefi_ntfs_support_partition\<close>, and nowhere else: never between
  two files or at another stage. When a poll finds the flag set, nothing of the pipeline
  runs after it: the remaining events are those of \<^verbatim>\<open>cleanup\<close> (and the final message),
  files already copied stay, and \<^verbatim>\<open>flash_device\<close> ends by raising SystemExit (or the
  error of \<^verbatim>\<open>rmtree\<close>), not by returning a result. However the run ends, a progress
  thread that was started has its stop flag set when \<^verbatim>\<open>flash_device\<close> is left.
\<close>

theorem flash_device_cancellation:
  "polls_at_entry prev (trace (fst (flash_device E src dev fs label (initial_state ds)))) \<and>
   (gui E \<longrightarrow> entries_polled (trace (fst (flash_device E src dev fs label (initial_state ds))))) \<and>
   (started (handle (fst (flash_device E src dev fs label (initial_state ds)))) \<longrightarrow>
    stop (handle (fst (flash_device E src dev fs label (initial_state ds))))) \<and>
   (Kill_polled True \<in> set (trace (fst (flash_device E src dev fs label (initial_state ds)))) \<longrightarrow>
    (\<exists>pre temp. trace (fst (flash_device E src dev fs label (initial_state ds))) =
            pre @ [Kill_polled True, Called ''cleanup'', Rmtree temp] @
            (case rmtree_error E temp of None \<Rightarrow> [Print Msg_flashing_completed Green] | Some e \<Rightarrow> []) \<and>
          Kill_polled True \<notin> set pre \<and>
          snd (flash_device E src dev fs label (initial_state ds)) =
            Raise (case rmtree_error E temp of None \<Rightarrow> Exn SystemExit [] | Some e \<Rightarrow> e)))"
proof (intro conjI impI)
  show "polls_at_entry prev (trace (fst (flash_device E src dev fs label (initial_state ds))))"
    by (rule flash_device_polls_at_entry)
  show "entries_polled (trace (fst (flash_device E src dev fs label (initial_state ds))))" if "gui E"
    using that by (rule flash_device_entries_polled)
  show "stop (handle (fst (flash_device E src dev fs label (initial_state ds))))"
    if "started (handle (fst (flash_device E src dev fs label (initial_state ds))))"
    using that by (rule flash_device_reporter_stopped)
  show "\<exists>pre temp. trace (fst (flash_device E src dev fs label (initial_state ds))) =
            pre @ [Kill_polled True, Called ''cleanup'', Rmtree temp] @
            (case rmtree_error E temp of None \<Rightarrow> [Print Msg_flashing_completed Green] | Some e \<Rightarrow> []) \<and>
          Kill_polled True \<notin> set pre \<and>
          snd (flash_device E src dev fs label (initial_state ds)) =
            Raise (case rmtree_error E temp of None \<Rightarrow> Exn SystemExit [] | Some e \<Rightarrow> e)"
    if "Kill_polled True \<in> set (trace (fst (flash_device E src dev fs label (initial_state ds))))"
    using that by (rule flash_device_cancelled)
qed

theorem flash_device_cancellation_witness:
  "gui env_cancel_after_copy \<and>
   Kill_polled True \<in> set (trace (fst (flash_device env_cancel_after_copy ''install.iso'' ''1'' ''NTFS'' ''USB'' (initial_state {})))) \<and>
   started (handle (fst (flash_device env_cancel_after_copy ''install.iso'' ''1'' ''NTFS'' ''USB'' (initial_state {})))) \<and>
   stop (handle (fst (flash_device env_cancel_after_copy ''install.iso'' ''1'' ''NTFS'' ''USB'' (initial_state {})))) \<and>
   length (filter is_copy
     (trace (fst (flash_device env_cancel_after_copy ''install.iso'' ''1'' ''NTFS'' ''USB'' (initial_state {}))))) = 2 \<and>
   entries_polled (trace (fst (flash_device env_cancel_after_copy ''install.iso'' ''1'' ''NTFS'' ''USB'' (initial_state {})))) \<and>
   polls_at_entry (Called ''main'')
     (trace (fst (flash_device env_cancel_after_copy ''install.iso'' ''1'' ''NTFS'' ''USB'' (initial_state {})))) \<and>
   (\<exists>pre temp. trace (fst (flash_device env_cancel_after_copy ''install.iso'' ''1'' ''NTFS'' ''USB'' (initial_state {}))) =
            pre @ [Kill_polled True, Called ''cleanup'', Rmtree temp] @
            (case rmtree_error env_cancel_after_copy temp of None \<Rightarrow> [Print Msg_flashing_completed Green] | Some e \<Rightarrow> []) \<and>
          Kill_polled True \<notin> set pre \<and>
          snd (flash_device env_cancel_after_copy ''install.iso'' ''1'' ''NTFS'' ''USB'' (initial_state {})) =
            Raise (case rmtree_error env_cancel_after_copy temp of None \<Rightarrow> Exn SystemExit [] | Some e \<Rightarrow> e))"
proof -
  have gui: "gui env_cancel_after_copy"
    by (simp add: env_cancel_after_copy_def)
  have seen: "Kill_polled True \<in> set (trace (fst (flash_device env_cancel_after_copy ''install.iso'' ''1'' ''NTFS'' ''USB'' (initial_state {}))))"
    by (simp add: monad_defs prim_defs core_defs env_cancel_after_copy_def env_ok_def)
  have started: "started (handle (fst (flash_device env_cancel_after_copy ''install.iso'' ''1'' ''NTFS'' ''USB'' (initial_state {}))))"
    by (simp add: monad_defs prim_defs core_defs env_cancel_after_copy_def env_ok_def)
  have copied: "length (filter is_copy
     (trace (fst (flash_device env_cancel_after_copy ''install.iso'' ''1'' ''NTFS'' ''USB'' (initial_state {}))))) = 2"
    by (simp add: monad_defs prim_defs core_defs env_cancel_after_copy_def env_ok_def)
  from gui seen started copied
    flash_device_cancellation [of "Called ''main''" env_cancel_after_copy "''install.iso''" "''1''" "''NTFS''" "''USB''" "{}"]
  show ?thesis by blast
qed

subsection \<open>A device-modification command that cannot be run\<close>

lemma tspec_from_spec: "spec m Q \<Longrightarrow> tspec m (\<lambda>n. Q)"
  unfolding spec_def tspec_def by blast

lemma tspec_if: "(c \<Longrightarrow> tspec a Q) \<Longrightarrow> (\<not> c \<Longrightarrow> tspec b Q) \<Longrightarrow> tspec (if c then a else b) Q"
  by simp

lemma tspec_case_prod: "(\<And>a b. tspec (f a b) Q) \<Longrightarrow> tspec (case_prod f v) Q"
  by (cases v) simp

lemma tspec_and_then:
  assumes m: "tspec m R"
    and k: "\<And>v. tspec (k v) (S v)"
    and raised: "\<And>n a e. R n a (Raise e) \<Longrightarrow> T n a (Raise e)"
    and returned: "\<And>n a v b out. R n a (Return v) \<Longrightarrow> S v (n + length a) b out \<Longrightarrow> T n (a @ b) out"
  shows "tspec (and_then m k) T"
  unfolding tspec_def
proof
  fix st :: state
  let ?n = "length (trace st)"
  from m obtain a where a: "trace (fst (m st)) = trace st @ a" "dirs st \<subseteq> dirs (fst (m st))" "R ?n a (snd (m st))"
    unfolding tspec_def by blast
  show "\<exists>evs. trace (fst (and_then m k st)) = trace st @ evs \<and> dirs st \<subseteq> dirs (fst (and_then m k st)) \<and>
      T ?n evs (snd (and_then m k st))"
  proof (cases "snd (m st)")
    case (Raise e)
    then have "and_then m k st = (fst (m st), Raise e)"
      by (cases "m st") (simp add: and_then_def)
    with a Raise raised show ?thesis by auto
  next
    case (Return v)
    then have eq: "and_then m k st = k v (fst (m st))"
      by (cases "m st") (simp add: and_then_def)
    from k [of v] obtain b where b: "trace (fst (k v (fst (m st)))) = trace (fst (m st)) @ b"
      "dirs (fst (m st)) \<subseteq> dirs (fst (k v (fst (m st))))"
      "S v (length (trace (fst (m st)))) b (snd (k v (fst (m st))))"
      unfolding tspec_def by blast
    from a b have "S v (?n + length a) b (snd (k v (fst (m st))))" by simp
    with a Return returned [of ?n a v b] have "T ?n (a @ b) (snd (k v (fst (m st))))" by simp
    with a b eq show ?thesis by auto
  qed
qed

lemma tspec_except_Exception:
  assumes m: "tspec m R" and h: "\<And>e. tspec (h e) (S e)"
    and returned: "\<And>n a v. R n a (Return v) \<Longrightarrow> T n a (Return v)"
    and passed: "\<And>n a e. R n a (Raise e) \<Longrightarrow> \<not> is_Exception e \<Longrightarrow> T n a (Raise e)"
    and handled: "\<And>n a e b out. R n a (Raise e) \<Longrightarrow> is_Exception e \<Longrightarrow> S e (n + length a) b out \<Longrightarrow> T n (a @ b) out"
  shows "tspec (except_Exception m h) T"
  unfolding tspec_def
proof
  fix st :: state
  let ?n = "length (trace st)"
  let ?r = "except_Exception m h st"
  from m obtain a where a: "trace (fst (m st)) = trace st @ a" "dirs st \<subseteq> dirs (fst (m st))" "R ?n a (snd (m st))"
    unfolding tspec_def by blast
  show "\<exists>evs. trace (fst ?r) = trace st @ evs \<and> dirs st \<subseteq> dirs (fst ?r) \<and> T ?n evs (snd ?r)"
  proof (cases "snd (m st)")
    case (Return v)
    then have "?r = (fst (m st), Return v)"
      by (cases "m st") (simp add: except_Exception_def)
    with a Return returned show ?thesis by auto
  next
    case (Raise e)
    show ?thesis
    proof (cases "is_Exception e")
      case False
      with Raise have "?r = (fst (m st), Raise e)"
        by (cases "m st") (simp add: except_Exception_def)
      with a Raise False passed show ?thesis by auto
    next
      case True
      with Raise have eq: "?r = h e (fst (m st))"
        by (cases "m st") (simp add: except_Exception_def)
      from h [of e] obtain b where b: "trace (fst (h e (fst (m st)))) = trace (fst (m st)) @ b"
        "dirs (fst (m st)) \<subseteq> dirs (fst (h e (fst (m st))))"
        "S e (length (trace (fst (m st)))) b (snd (h e (fst (m st))))"
        unfolding tspec_def by blast
      from a b have "S e (?n + length a) b (snd (h e (fst (m st))))" by simp
      with a Raise True handled [of ?n a e b] have "T ?n (a @ b) (snd (h e (fst (m st))))" by simp
      with a b eq show ?thesis by auto
    qed
  qed
qed

lemma halting_harmless: "list_all harmless evs \<Longrightarrow> halting E n evs out"
  unfolding halting_def
proof (intro allI impI)
  fix i c e
  assume h: "list_all harmless evs"
    and "i < length evs \<and> evs ! i = Run c \<and> is_device_modification c \<and> run E (n + i) c = Failed_to_run e"
  then have "harmless (Run c)" "is_device_modification c"
    by (auto simp: list_all_length)
  then show "Suc i = length evs \<and> out = Raise e" by (simp add: harmless_def)
qed

lemma halting_from_only:
  assumes "spec m (only harmless)"
  shows "tspec m (halting E)"
  unfolding tspec_def
proof
  fix st :: state
  from assms obtain evs where "trace (fst (m st)) = trace st @ evs" "dirs st \<subseteq> dirs (fst (m st))"
    "list_all harmless evs"
    unfolding spec_def only_def by blast
  then show "\<exists>evs. trace (fst (m st)) = trace st @ evs \<and> dirs st \<subseteq> dirs (fst (m st)) \<and>
      halting E (length (trace st)) evs (snd (m st))"
    using halting_harmless by blast
qed

lemma halting_append:
  assumes a: "halting E n a (Return v)" and b: "halting E (n + length a) b out"
  shows "halting E n (a @ b) out"
  unfolding halting_def
proof (intro allI impI)
  fix i c e
  assume i: "i < length (a @ b) \<and> (a @ b) ! i = Run c \<and> is_device_modification c \<and>
    run E (n + i) c = Failed_to_run e"
  show "Suc i = length (a @ b) \<and> out = Raise e"
  proof (cases "i < length a")
    case True
    with i a show ?thesis by (auto simp: halting_def nth_append)
  next
    case False
    with i have "i - length a < length b" "b ! (i - length a) = Run c"
      "run E (n + length a + (i - length a)) c = Failed_to_run e"
      by (auto simp: nth_append)
    with b i have "Suc (i - length a) = length b \<and> out = Raise e"
      unfolding halting_def by blast
    with False show ?thesis by auto
  qed
qed

lemma halting_and_then:
  assumes m: "tspec m (halting E)" and k: "\<And>v. tspec (k v) (halting E)"
  shows "tspec (and_then m k) (halting E)"
proof (rule tspec_and_then [OF m k])
  show "halting E n (a @ b) out" if "halting E n a (Return v)" "halting E (n + length a) b out"
    for n a v b and out :: "'b outcome"
    using that by (rule halting_append)
  show "halting E n a (Raise e)" if "halting E n a (Raise e)" for n a e
    using that unfolding halting_def by blast
qed

lemma halting_run: "tspec (run_command E c) (halting E)"
  by (auto simp add: tspec_def halting_def run_command_def and_then_def emit_def raise_def ret_def Let_def
      split: proc_result.splits)

lemmas halting_leaf_intros =
  halting_from_only [OF only_ret] halting_from_only [OF only_raise]
  halting_from_only [OF only_emit] halting_from_only [OF only_print]
  halting_from_only [OF only_mount_source] halting_from_only [OF only_mount_target]
  halting_from_only [OF only_check_fat32_loop] halting_from_only [OF only_create_uefi]
  halting_from_only [OF only_copy_filesystem_files] halting_from_only [OF only_install_uefi]

lemma halting_flash_device_body:
  "tspec (flash_device_body E src dev fs label smp tmp temp) (halting E)"
  unfolding flash_device_body_def check_fat32_filesize_limitation_def format_target_device_def
    wipe_existing_partition_table_and_filesystem_signatures_def create_target_partition_table_def
    create_target_partition_def
  by (intro halting_and_then tspec_if tspec_case_prod halting_run halting_leaf_intros)
    (simp_all add: harmless_def)

lemma fatal_flash_device_guarded:
  "tspec (except_Exception (flash_device_body E src dev fs label smp tmp temp)
      (\<lambda>error. and_then (print_with_color E (Msg_error_text (str error)) Red) (\<lambda>_. ret (Some 1))))
     (fatal E)"
proof (rule tspec_except_Exception [OF halting_flash_device_body,
      where S = "\<lambda>e n evs out. evs = [Print (Msg_error_text (str e)) Red] \<and>
        out = (if gui E then Raise (Exn SystemExit []) else Return (Some 1))"])
  show "tspec (and_then (print_with_color E (Msg_error_text (str e)) Red) (\<lambda>_. ret (Some 1)))
      (\<lambda>n evs out. evs = [Print (Msg_error_text (str e)) Red] \<and>
        out = (if gui E then Raise (Exn SystemExit []) else Return (Some 1)))" for e
    by (simp add: tspec_def print_with_color_def and_then_def emit_def ret_def raise_def)
  show "fatal E n a (Return v)" if "halting E n a (Return v)" for n a v
    using that unfolding halting_def fatal_def by blast
  show "fatal E n a (Raise e)" if "halting E n a (Raise e)" "\<not> is_Exception e" for n a e
    using that unfolding halting_def fatal_def by blast
  show "fatal E n (a @ b) out"
    if a: "halting E n a (Raise e)" and "is_Exception e"
      and b: "b = [Print (Msg_error_text (str e)) Red] \<and>
        out = (if gui E then Raise (Exn SystemExit []) else Return (Some 1))"
    for n a e b out
    unfolding fatal_def
  proof (intro allI impI)
    fix i c e'
    assume i: "i < length (a @ b) \<and> (a @ b) ! i = Run c \<and> is_device_modification c \<and>
      run E (n + i) c = Failed_to_run e' \<and> is_Exception e'"
    show "drop (Suc i) (a @ b) = [Print (Msg_error_text (str e')) Red] \<and>
      out = (if gui E then Raise (Exn SystemExit []) else Return (Some 1))"
    proof (cases "i < length a")
      case True
      with i a have "Suc i = length a \<and> e = e'"
        by (auto simp: halting_def nth_append)
      with b show ?thesis by simp
    next
      case False
      with i b have "i = length a" by simp
      with i b show ?thesis by (simp add: nth_append)
    qed
  qed
qed

lemma flash_device_decompose_clock:
  assumes mk: "mkdtemp E = Inr temp"
    and g: "tspec (except_Exception
              (flash_device_body E src dev fs label
                 (os_path_join E media_source_prefix (stamp_source E))
                 (os_path_join E media_target_prefix (stamp_target E)) temp)
              (\<lambda>error. and_then (print_with_color E (Msg_error_text (str error)) Red) (\<lambda>_. ret (Some 1)))) Q"
  shows "\<exists>evs out. Q (length (trace st) + 2) evs out \<and>
           trace (fst (flash_device E src dev fs label st)) =
             trace st @ [Called ''flash_device'', Mkdtemp temp] @ evs @ [Called ''cleanup'', Rmtree temp] @
             (case rmtree_error E temp of None \<Rightarrow> [Print Msg_flashing_completed Green] | Some e \<Rightarrow> []) \<and>
           snd (flash_device E src dev fs label st) =
             (case rmtree_error E temp of Some e \<Rightarrow> Raise e | None \<Rightarrow> out)"
proof -
  let ?G = "except_Exception
              (flash_device_body E src dev fs label
                 (os_path_join E media_source_prefix (stamp_source E))
                 (os_path_join E media_target_prefix (stamp_target E)) temp)
              (\<lambda>error. and_then (print_with_color E (Msg_error_text (str error)) Red) (\<lambda>_. ret (Some 1)))"
  let ?st1 = "st\<lparr>trace := trace st @ [Called ''flash_device''] @ [Mkdtemp temp], dirs := insert temp (dirs st)\<rparr>"
  from g obtain evs where evs: "trace (fst (?G ?st1)) = trace ?st1 @ evs"
    "dirs ?st1 \<subseteq> dirs (fst (?G ?st1))" "Q (length (trace ?st1)) evs (snd (?G ?st1))"
    unfolding tspec_def by blast
  obtain st2 out where G: "?G ?st1 = (st2, out)" by (cases "?G ?st1")
  with evs have st2: "trace st2 = trace st @ [Called ''flash_device'', Mkdtemp temp] @ evs"
    "temp \<in> dirs st2" "Q (length (trace st) + 2) evs out" by auto
  have "flash_device E src dev fs label st =
          try_finally ?G
            (and_then (cleanup E (os_path_join E media_source_prefix (stamp_source E))
                 (os_path_join E media_target_prefix (stamp_target E)) temp dev)
               (\<lambda>_. print_with_color E Msg_flashing_completed Green)) ?st1"
    by (simp add: flash_device_def Let_def and_then_def emit_def tempfile_mkdtemp_def mk)
  also have "\<dots> = (case rmtree_error E temp of
        Some e \<Rightarrow> (st2\<lparr>trace := trace st2 @ [Called ''cleanup'', Rmtree temp],
                      handle := (if is_alive (handle st2) then (handle st2)\<lparr>stop := True\<rparr> else handle st2)\<rparr>, Raise e)
      | None \<Rightarrow> (st2\<lparr>trace := trace st2 @ [Called ''cleanup'', Rmtree temp, Print Msg_flashing_completed Green],
                      handle := (if is_alive (handle st2) then (handle st2)\<lparr>stop := True\<rparr> else handle st2),
                      dirs := dirs st2 - {temp}\<rparr>, out))"
    using G st2(2)
    by (simp add: try_finally_def cleanup_def and_then_def emit_def ret_def raise_def
        shutil_rmtree_def print_with_color_def split: option.splits)
  finally have "flash_device E src dev fs label st = (case rmtree_error E temp of
        Some e \<Rightarrow> (st2\<lparr>trace := trace st2 @ [Called ''cleanup'', Rmtree temp],
                      handle := (if is_alive (handle st2) then (handle st2)\<lparr>stop := True\<rparr> else handle st2)\<rparr>, Raise e)
      | None \<Rightarrow> (st2\<lparr>trace := trace st2 @ [Called ''cleanup'', Rmtree temp, Print Msg_flashing_completed Green],
                      handle := (if is_alive (handle st2) then (handle st2)\<lparr>stop := True\<rparr> else handle st2),
                      dirs := dirs st2 - {temp}\<rparr>, out))" .
  with st2 show ?thesis
    by (intro exI [of _ evs] exI [of _ out]) (simp split: option.splits)
qed

lemma event_between:
  assumes "pre @ x # post = A @ evs @ B" "x \<notin> set A" "x \<notin> set B"
  shows "length A \<le> length pre \<and> length pre - length A < length evs \<and>
         evs ! (length pre - length A) = x \<and> post = drop (Suc (length pre - length A)) evs @ B"
  using assms
proof (induction A arbitrary: pre)
  case Nil
  from Nil.prems(1) have "\<exists>us. (pre = evs @ us \<and> us @ x # post = B) \<or> (pre @ us = evs \<and> x # post = us @ B)"
    by (simp add: append_eq_append_conv2)
  then obtain us where us: "(pre = evs @ us \<and> us @ x # post = B) \<or> (pre @ us = evs \<and> x # post = us @ B)" ..
  with Nil.prems(3) have "pre @ us = evs" "x # post = us @ B" by auto
  with Nil.prems(3) obtain us' where "us = x # us'" by (cases us) auto
  with \<open>pre @ us = evs\<close> \<open>x # post = us @ B\<close> show ?case by auto
next
  case (Cons a A)
  from Cons.prems obtain pre' where pre: "pre = a # pre'" by (cases pre) auto
  with Cons.prems have "pre' @ x # post = A @ evs @ B" "x \<notin> set A" by auto
  from Cons.IH [OF this Cons.prems(3)] pre show ?case by simp
qed

text \<open>
  C3, amended. When a device-modification command (diskpart clean, convert, or create
  partition) cannot be run at the moment it is issued and raises an exception of class
  \<^verbatim>\<open>Exception\<close>, the failure is fatal, whether or not the same command was run before:
  after the failing command nothing of the pipeline runs, the text of the exception is
  printed as an error, \<^verbatim>\<open>cleanup\<close> runs, and \<^verbatim>\<open>flash_device\<close> returns 1 (raises
  SystemExit with a GUI attached; the error of \<^verbatim>\<open>rmtree\<close> when the cleanup fails). The
  result is the same whichever step failed.
\<close>

theorem device_modification_exception_is_fatal:
  assumes c: "is_device_modification c" and ex: "is_Exception e"
    and issued: "trace (fst (flash_device E src dev fs label (initial_state ds))) = pre @ Run c # post"
    and fails: "run E (length pre) c = Failed_to_run e"
  shows "\<exists>temp. post = [Print (Msg_error_text (str e)) Red, Called ''cleanup'', Rmtree temp] @
            (case rmtree_error E temp of None \<Rightarrow> [Print Msg_flashing_completed Green] | Some e' \<Rightarrow> []) \<and>
          snd (flash_device E src dev fs label (initial_state ds)) =
            (case rmtree_error E temp of
               Some e' \<Rightarrow> Raise e'
             | None \<Rightarrow> if gui E then Raise (Exn SystemExit []) else Return (Some 1))"
proof (cases "mkdtemp E")
  case (Inl e')
  with issued show ?thesis
    by (simp add: flash_device_without_session initial_state_def Cons_eq_append_conv)
next
  case (Inr temp)
  let ?r = "flash_device E src dev fs label (initial_state ds)"
  let ?B = "[Called ''cleanup'', Rmtree temp] @
    (case rmtree_error E temp of None \<Rightarrow> [Print Msg_flashing_completed Green] | Some e \<Rightarrow> [])"
  from flash_device_decompose_clock [OF Inr fatal_flash_device_guarded,
      where st = "initial_state ds" and src = src and dev = dev and fs = fs and label = label]
  obtain evs :: "event list" and out :: "int option outcome"
    where evs': "fatal E (length (trace (initial_state ds)) + 2) evs out"
    and tr': "trace (fst ?r) = trace (initial_state ds) @ [Called ''flash_device'', Mkdtemp temp] @ evs @ ?B"
    and res: "snd ?r = (case rmtree_error E temp of Some e \<Rightarrow> Raise e | None \<Rightarrow> out)"
    by blast
  have "length (trace (initial_state ds)) + 2 = 2" by (simp add: initial_state_def)
  with evs' have evs: "fatal E 2 evs out" by (simp only:)
  from tr' have tr: "trace (fst ?r) = [Called ''flash_device'', Mkdtemp temp] @ evs @ ?B"
    by (simp add: initial_state_def)
  from issued tr have "pre @ Run c # post = [Called ''flash_device'', Mkdtemp temp] @ evs @ ?B" by simp
  moreover have "Run c \<notin> set [Called ''flash_device'', Mkdtemp temp]" by simp
  moreover have "Run c \<notin> set ?B" by (simp split: option.splits)
  ultimately have pos: "length [Called ''flash_device'', Mkdtemp temp] \<le> length pre \<and>
      length pre - length [Called ''flash_device'', Mkdtemp temp] < length evs \<and>
      evs ! (length pre - length [Called ''flash_device'', Mkdtemp temp]) = Run c \<and>
      post = drop (Suc (length pre - length [Called ''flash_device'', Mkdtemp temp])) evs @ ?B"
    by (rule event_between)
  let ?i = "length pre - 2"
  have two: "length [Called ''flash_device'', Mkdtemp temp] = 2" by simp
  from pos have i: "?i < length evs" "evs ! ?i = Run c" "post = drop (Suc ?i) evs @ ?B" "2 + ?i = length pre"
    unfolding two by auto
  with fails have "run E (2 + ?i) c = Failed_to_run e" by simp
  with evs i c ex have "drop (Suc ?i) evs = [Print (Msg_error_text (str e)) Red] \<and>
      out = (if gui E then Raise (Exn SystemExit []) else Return (Some 1))"
    unfolding fatal_def by blast
  with i res show ?thesis
    by (intro exI [of _ temp]) (simp split: option.splits)
qed

theorem device_modification_exception_is_fatal_witness:
  "is_device_modification (Diskpart_create_partition ''1'' ''FAT'' ''USB'') \<and>
   is_Exception diskpart_missing \<and>
   Run (Diskpart_create_partition ''1'' ''FAT'' ''USB'') \<in>
     set (take 23 (trace (fst (flash_device env_create_raises_late ''install.iso'' ''1'' ''FAT'' ''USB'' (initial_state {}))))) \<and>
   trace (fst (flash_device env_create_raises_late ''install.iso'' ''1'' ''FAT'' ''USB'' (initial_state {}))) =
     take 23 (trace (fst (flash_device env_create_raises_late ''install.iso'' ''1'' ''FAT'' ''USB'' (initial_state {})))) @
     Run (Diskpart_create_partition ''1'' ''FAT'' ''USB'') #
     drop 24 (trace (fst (flash_device env_create_raises_late ''install.iso'' ''1'' ''FAT'' ''USB'' (initial_state {})))) \<and>
   run env_create_raises_late 23 (Diskpart_create_partition ''1'' ''FAT'' ''USB'') = Failed_to_run diskpart_missing \<and>
   (\<exists>temp. drop 24 (trace (fst (flash_device env_create_raises_late ''install.iso'' ''1'' ''FAT'' ''USB'' (initial_state {})))) =
            [Print (Msg_error_text (str diskpart_missing)) Red, Called ''cleanup'', Rmtree temp] @
            (case rmtree_error env_create_raises_late temp of None \<Rightarrow> [Print Msg_flashing_completed Green] | Some e' \<Rightarrow> []) \<and>
          snd (flash_device env_create_raises_late ''install.iso'' ''1'' ''FAT'' ''USB'' (initial_state {})) =
            (case rmtree_error env_create_raises_late temp of
               Some e' \<Rightarrow> Raise e'
             | None \<Rightarrow> if gui env_create_raises_late then Raise (Exn SystemExit []) else Return (Some 1)))"
proof -
  let ?c = "Diskpart_create_partition ''1'' ''FAT'' ''USB''"
  let ?tr = "trace (fst (flash_device env_create_raises_late ''install.iso'' ''1'' ''FAT'' ''USB'' (initial_state {})))"
  have c: "is_device_modification ?c" by simp
  have ex: "is_Exception diskpart_missing"
    by (simp add: is_Exception_def diskpart_missing_def)
  have before: "Run ?c \<in> set (take 23 ?tr)"
    by (simp add: monad_defs prim_defs core_defs env_create_raises_late_def env_ok_def diskpart_missing_def)
  have issued: "?tr = take 23 ?tr @ Run ?c # drop 24 ?tr"
    by (simp add: monad_defs prim_defs core_defs env_create_raises_late_def env_ok_def diskpart_missing_def)
  have len: "length (take 23 ?tr) = 23"
    by (simp add: monad_defs prim_defs core_defs env_create_raises_late_def env_ok_def diskpart_missing_def)
  have fails: "run env_create_raises_late 23 ?c = Failed_to_run diskpart_missing"
    by (simp add: env_create_raises_late_def env_ok_def)
  from fails len have fails': "run env_create_raises_late (length (take 23 ?tr)) ?c = Failed_to_run diskpart_missing"
    by simp
  from c ex before issued fails device_modification_exception_is_fatal [OF c ex issued fails']
  show ?thesis by blast
qed

end
